theory Spec2Isabelle
  imports Main "HOL-Library.Word"
begin

section \<open>The image analysis app (\<^verbatim>\<open>src/app.py\<close>)\<close>

text \<open>
  The program is one Streamlit script. It creates a SQLite table, shows every uploaded
  file, asks the table whether the file name is known, and otherwise sends the image to a
  language model, post-processes the JSON answer and inserts one row.

  The script is embedded as state-passing functions over a record \<open>world\<close> (the
  database file, the open connections, what the page shows, the requests sent to the
  model). Every Python exception is a value; a function returns either the exception or
  its result, together with the world it leaves behind. The libraries the script calls
  (sqlite3, Streamlit, PIL, the model chain) are not part of the repository: what they
  answer is either computed by the small storage engine below, which interprets the
  column declarations of the script's \<^verbatim>\<open>CREATE TABLE\<close>, or taken from a record
  \<open>env\<close> of parameters.

  One run of the script is modelled, on its own: nothing else writes to the file while
  the script runs. Text is modelled by its UTF-8 bytes (\<open>string\<close>).
\<close>

subsection \<open>Python values\<close>

type_synonym byte = "8 word"

text \<open>
  What the JSON parser of the chain can return. A float is given by its \<^verbatim>\<open>repr\<close>. A
  \<^verbatim>\<open>dict\<close> is an association list; a key is looked up at its first binding (a Python
  dict has one binding per key).
\<close>

datatype pyval =
    PNone
  | PBool bool
  | PInt int
  | PFloat string
  | PStr string
  | PList "pyval list"
  | PDict "(string \<times> pyval) list"

datatype exn_class =
    IntegrityError
  | OperationalError
  | DatabaseError
  | ProgrammingError
  | OverflowError
  | AttributeError
  | OtherError

text \<open>An exception: its class and \<^verbatim>\<open>str(e)\<close>. Every class is a subclass of \<^verbatim>\<open>Exception\<close>.\<close>

datatype exn = Exn exn_class string

fun exn_class_of :: "exn \<Rightarrow> exn_class" where
  "exn_class_of (Exn c m) = c"

fun str_exn :: "exn \<Rightarrow> string" where
  "str_exn (Exn c m) = m"

fun digits :: "nat \<Rightarrow> string" where
  "digits n =
     (if n < 10 then [''0123456789'' ! n]
      else digits (n div 10) @ [''0123456789'' ! (n mod 10)])"

declare digits.simps [simp del]

definition str_int :: "int \<Rightarrow> string" where
  "str_int i = (if i < 0 then CHR ''-'' # digits (nat (- i)) else digits (nat i))"

text \<open>A text between apostrophes.\<close>

definition quoted :: "string \<Rightarrow> string" where
  "quoted s = [CHR 0x27] @ s @ [CHR 0x27]"

text \<open>\<^verbatim>\<open>sep.join(xs)\<close>\<close>

fun join :: "string \<Rightarrow> string list \<Rightarrow> string" where
  "join sep [] = []"
| "join sep [x] = x"
| "join sep (x # y # ys) = x @ sep @ join sep (y # ys)"

text \<open>
  \<^verbatim>\<open>repr(v)\<close>. The quoting of a string (\<open>rs\<close>) is Python's own and is a parameter.
\<close>

primrec py_repr :: "(string \<Rightarrow> string) \<Rightarrow> pyval \<Rightarrow> string" where
  "py_repr rs PNone = ''None''"
| "py_repr rs (PBool b) = (if b then ''True'' else ''False'')"
| "py_repr rs (PInt i) = str_int i"
| "py_repr rs (PFloat r) = r"
| "py_repr rs (PStr s) = rs s"
| "py_repr rs (PList xs) = ''['' @ join '', '' (map (py_repr rs) xs) @ '']''"
| "py_repr rs (PDict kvs) =
     ''{'' @ join '', '' (map (\<lambda>kv. rs (fst kv) @ '': '' @ snd kv)
                            (map (map_prod id (py_repr rs)) kvs)) @ ''}''"

text \<open>\<^verbatim>\<open>str(v)\<close>: a string is itself, every other value its \<^verbatim>\<open>repr\<close>.\<close>

definition py_str :: "(string \<Rightarrow> string) \<Rightarrow> pyval \<Rightarrow> string" where
  "py_str rs v = (case v of PStr s \<Rightarrow> s | _ \<Rightarrow> py_repr rs v)"

text \<open>\<^verbatim>\<open>isinstance(v, list)\<close>\<close>

fun isinstance_list :: "pyval \<Rightarrow> bool" where
  "isinstance_list (PList xs) = True"
| "isinstance_list v = False"

fun list_items :: "pyval \<Rightarrow> pyval list" where
  "list_items (PList xs) = xs"
| "list_items v = []"

fun type_name :: "pyval \<Rightarrow> string" where
  "type_name PNone = ''NoneType''"
| "type_name (PBool b) = ''bool''"
| "type_name (PInt i) = ''int''"
| "type_name (PFloat r) = ''float''"
| "type_name (PStr s) = ''str''"
| "type_name (PList xs) = ''list''"
| "type_name (PDict kvs) = ''dict''"

text \<open>
  \<^verbatim>\<open>v.get(key, default)\<close>: only a dict has the method; on any other value the attribute
  lookup raises \<^verbatim>\<open>AttributeError\<close>.
\<close>

definition dict_get :: "(string \<times> pyval) list \<Rightarrow> string \<Rightarrow> pyval \<Rightarrow> pyval" where
  "dict_get kvs key dflt = (case map_of kvs key of Some v \<Rightarrow> v | None \<Rightarrow> dflt)"

fun py_get :: "pyval \<Rightarrow> string \<Rightarrow> pyval \<Rightarrow> exn + pyval" where
  "py_get (PDict kvs) key dflt = Inr (dict_get kvs key dflt)"
| "py_get v key dflt =
     Inl (Exn AttributeError
            (quoted (type_name v) @ '' object has no attribute '' @ quoted ''get''))"

subsection \<open>\<^verbatim>\<open>encode_image_from_bytes\<close>\<close>

definition b64char :: "nat \<Rightarrow> char" where
  "b64char n = ''ABCDEFGHIJKLMNOPQRSTUVWXYZabcdefghijklmnopqrstuvwxyz0123456789+/'' ! n"

text \<open>\<^verbatim>\<open>base64.b64encode\<close>: three bytes give four characters, the rest is padded.\<close>

fun b64encode :: "byte list \<Rightarrow> string" where
  "b64encode [] = []"
| "b64encode [a] =
     [b64char (unat a div 4), b64char ((unat a mod 4) * 16), CHR ''='', CHR ''='']"
| "b64encode [a, b] =
     [b64char (unat a div 4), b64char ((unat a mod 4) * 16 + unat b div 16),
      b64char ((unat b mod 16) * 4), CHR ''='']"
| "b64encode (a # b # c # rest) =
     [b64char (unat a div 4), b64char ((unat a mod 4) * 16 + unat b div 16),
      b64char ((unat b mod 16) * 4 + unat c div 64), b64char (unat c mod 64)]
     @ b64encode rest"

text \<open>
  The encoded bytes are ASCII, so \<^verbatim>\<open>.decode('utf-8')\<close> gives the same characters.
\<close>

definition encode_image_from_bytes :: "byte list \<Rightarrow> string" where
  "encode_image_from_bytes image_bytes = b64encode image_bytes"

subsection \<open>The storage engine\<close>

text \<open>
  The engine keeps what SQLite keeps for the statements of the script: the declared
  columns of table \<^verbatim>\<open>image_data\<close>, its rows (one cell per column), and the entry of
  \<^verbatim>\<open>sqlite_sequence\<close> for the table, the largest row id ever assigned (0 before the
  first). It reads the constraints from the column declarations, so what an
  \<^verbatim>\<open>INSERT\<close> does depends on the \<^verbatim>\<open>CREATE TABLE\<close> of the script. Only
  what the statements of the script need is modelled: values are supplied to
  \<^verbatim>\<open>TEXT\<close> columns only, and a row id is assigned only through an
  \<^verbatim>\<open>INTEGER PRIMARY KEY AUTOINCREMENT\<close> column.
\<close>

datatype sqlval = SNull | SInt int | SReal string | SText string

datatype sqltype = INTEGER | TEXT | DATETIME

datatype coldefault = NoDefault | CURRENT_TIMESTAMP

record column =
  col_name :: string
  col_type :: sqltype
  col_primary_key_autoincrement :: bool
  col_not_null :: bool
  col_unique :: bool
  col_default :: coldefault

record table =
  tbl_columns :: "column list"
  tbl_rows :: "sqlval list list"
  tbl_seq :: int

text \<open>The column declarations of \<^verbatim>\<open>setup_database\<close>, in their order.\<close>

definition image_data_columns :: "column list" where
  "image_data_columns =
    [\<lparr>col_name = ''id'', col_type = INTEGER, col_primary_key_autoincrement = True,
      col_not_null = False, col_unique = False, col_default = NoDefault\<rparr>,
     \<lparr>col_name = ''image_name'', col_type = TEXT, col_primary_key_autoincrement = False,
      col_not_null = True, col_unique = True, col_default = NoDefault\<rparr>,
     \<lparr>col_name = ''title'', col_type = TEXT, col_primary_key_autoincrement = False,
      col_not_null = True, col_unique = False, col_default = NoDefault\<rparr>,
     \<lparr>col_name = ''buildings'', col_type = TEXT, col_primary_key_autoincrement = False,
      col_not_null = False, col_unique = False, col_default = NoDefault\<rparr>,
     \<lparr>col_name = ''description'', col_type = TEXT, col_primary_key_autoincrement = False,
      col_not_null = False, col_unique = False, col_default = NoDefault\<rparr>,
     \<lparr>col_name = ''time_added'', col_type = DATETIME, col_primary_key_autoincrement = False,
      col_not_null = False, col_unique = False, col_default = CURRENT_TIMESTAMP\<rparr>]"

fun find_col :: "string \<Rightarrow> column list \<Rightarrow> nat option" where
  "find_col n [] = None"
| "find_col n (c # cs) = (if col_name c = n then Some 0 else map_option Suc (find_col n cs))"

definition cell :: "sqlval list \<Rightarrow> nat \<Rightarrow> sqlval" where
  "cell r i = (if i < length r then r ! i else SNull)"

text \<open>The cell of a row in the column of that name (\<open>SNull\<close> when there is none).\<close>

definition field :: "table \<Rightarrow> sqlval list \<Rightarrow> string \<Rightarrow> sqlval" where
  "field t r n = (case find_col n (tbl_columns t) of None \<Rightarrow> SNull | Some i \<Rightarrow> cell r i)"

text \<open>
  Column affinity: a number stored into a \<^verbatim>\<open>TEXT\<close> column is converted to text.
  How SQLite prints a real (\<open>rt\<close>) is a parameter.
\<close>

definition apply_affinity :: "(string \<Rightarrow> string) \<Rightarrow> sqltype \<Rightarrow> sqlval \<Rightarrow> sqlval" where
  "apply_affinity rt ty v =
     (if ty = TEXT
      then (case v of SInt i \<Rightarrow> SText (str_int i) | SReal r \<Rightarrow> SText (rt r) | _ \<Rightarrow> v)
      else v)"

definition default_value :: "string \<Rightarrow> column \<Rightarrow> sqlval" where
  "default_value now c =
     (case col_default c of NoDefault \<Rightarrow> SNull | CURRENT_TIMESTAMP \<Rightarrow> SText now)"

text \<open>The row ids in use: the integer cells of the primary key column.\<close>

definition rowids :: "table \<Rightarrow> int list" where
  "rowids t =
     concat (map (\<lambda>r. concat (map (\<lambda>(c, v). case v of SInt k \<Rightarrow>
                                        if col_primary_key_autoincrement c then [k] else []
                                      | _ \<Rightarrow> [])
                                 (zip (tbl_columns t) r)))
                 (tbl_rows t))"

definition max_rowid :: "table \<Rightarrow> int" where
  "max_rowid t = fold max (rowids t) 0"

definition needs_rowid :: "column list \<Rightarrow> sqlval list \<Rightarrow> bool" where
  "needs_rowid cols vals =
     list_ex (\<lambda>(c, v). col_primary_key_autoincrement c \<and> v = SNull) (zip cols vals)"

definition assign_rowid :: "int \<Rightarrow> column list \<Rightarrow> sqlval list \<Rightarrow> sqlval list" where
  "assign_rowid k cols vals =
     map (\<lambda>(c, v). if col_primary_key_autoincrement c \<and> v = SNull then SInt k else v)
         (zip cols vals)"

definition not_null_violation :: "column list \<Rightarrow> sqlval list \<Rightarrow> string option" where
  "not_null_violation cols row =
     map_option (\<lambda>(c, v). col_name c)
        (find (\<lambda>(c, v). col_not_null c \<and> v = SNull) (zip cols row))"

definition unique_violation ::
  "column list \<Rightarrow> sqlval list list \<Rightarrow> sqlval list \<Rightarrow> string option" where
  "unique_violation cols old row =
     map_option (\<lambda>(i, c). col_name c)
        (find (\<lambda>(i, c). col_unique c \<and> cell row i \<noteq> SNull \<and>
                         list_ex (\<lambda>r. cell r i = cell row i) old)
              (enumerate 0 cols))"

text \<open>
  One \<^verbatim>\<open>INSERT\<close> of the named values. A column that gets no value takes its default.
  With \<^verbatim>\<open>AUTOINCREMENT\<close> the new row id is one more than the largest ever assigned,
  and the statement fails when that was the largest 64-bit integer. Then the
  \<^verbatim>\<open>NOT NULL\<close> constraints are checked, then the \<^verbatim>\<open>UNIQUE\<close> ones. A failed
  statement changes nothing.
\<close>

definition insert_row ::
  "(string \<Rightarrow> string) \<Rightarrow> string \<Rightarrow> table \<Rightarrow> (string \<times> sqlval) list \<Rightarrow> exn + table" where
  "insert_row rt now t supplied =
     (let cols = tbl_columns t;
          vals = map (\<lambda>c. apply_affinity rt (col_type c)
                            (case map_of supplied (col_name c) of
                               Some v \<Rightarrow> v | None \<Rightarrow> default_value now c)) cols;
          largest = max (tbl_seq t) (max_rowid t);
          fresh = needs_rowid cols vals
      in if fresh \<and> 9223372036854775807 \<le> largest
         then Inl (Exn OperationalError ''database or disk is full'')
         else
           (let row = assign_rowid (largest + 1) cols vals in
            case not_null_violation cols row of
              Some c \<Rightarrow> Inl (Exn IntegrityError (''NOT NULL constraint failed: image_data.'' @ c))
            | None \<Rightarrow>
               (case unique_violation cols (tbl_rows t) row of
                  Some c \<Rightarrow> Inl (Exn IntegrityError (''UNIQUE constraint failed: image_data.'' @ c))
                | None \<Rightarrow>
                    Inr (t\<lparr>tbl_rows := tbl_rows t @ [row],
                           tbl_seq := (if fresh then largest + 1 else tbl_seq t)\<rparr>))))"

text \<open>
  \<^verbatim>\<open>SELECT COUNT(*) FROM image_data WHERE image_name = ?\<close>: a comparison with
  \<^verbatim>\<open>NULL\<close> is never true.
\<close>

definition select_count :: "(string \<Rightarrow> string) \<Rightarrow> table \<Rightarrow> sqlval \<Rightarrow> exn + nat" where
  "select_count rt t v =
     (case find_col ''image_name'' (tbl_columns t) of
        None \<Rightarrow> Inl (Exn OperationalError ''no such column: image_name'')
      | Some i \<Rightarrow>
          (let p = apply_affinity rt (col_type (tbl_columns t ! i)) v
           in Inr (length (filter (\<lambda>r. p \<noteq> SNull \<and> cell r i = p) (tbl_rows t)))))"

text \<open>
  How the sqlite3 module binds a Python value to a parameter: \<^verbatim>\<open>None\<close>, integers
  (a \<^verbatim>\<open>bool\<close> is one) within 64 bits, floats and strings are bound (SQLite keeps a
  NaN as \<^verbatim>\<open>NULL\<close>); any other type is refused before the statement runs. The class and the message of the refusal are
  those of Python 3.11 and later (before, the class was \<^verbatim>\<open>InterfaceError\<close>, which
  is no \<^verbatim>\<open>IntegrityError\<close> either).
\<close>

fun bind_param :: "nat \<Rightarrow> pyval \<Rightarrow> exn + sqlval" where
  "bind_param i PNone = Inr SNull"
| "bind_param i (PBool b) = Inr (SInt (if b then 1 else 0))"
| "bind_param i (PInt k) =
     (if - 9223372036854775808 \<le> k \<and> k \<le> 9223372036854775807 then Inr (SInt k)
      else Inl (Exn OverflowError ''Python int too large to convert to SQLite INTEGER''))"
| "bind_param i (PFloat r) = Inr (if r = ''nan'' then SNull else SReal r)"
| "bind_param i (PStr s) = Inr (SText s)"
| "bind_param i v =
     Inl (Exn ProgrammingError
            (''Error binding parameter '' @ str_int (int i) @ '': type '' @
             quoted (type_name v) @ '' is not supported''))"

fun bind_parameters :: "nat \<Rightarrow> pyval list \<Rightarrow> exn + sqlval list" where
  "bind_parameters i [] = Inr []"
| "bind_parameters i (v # vs) =
     (case bind_param i v of
        Inl e \<Rightarrow> Inl e
      | Inr x \<Rightarrow> (case bind_parameters (Suc i) vs of Inl e \<Rightarrow> Inl e | Inr xs \<Rightarrow> Inr (x # xs)))"

subsection \<open>The world and the libraries\<close>

text \<open>
  The file \<^verbatim>\<open>buildings.db\<close>: absent, impossible to open, not a database, or a database
  with or without the table \<^verbatim>\<open>image_data\<close>.
\<close>

datatype db_file = NoFile | Unopenable | NotADatabase | Database "table option"

text \<open>An open connection has no transaction, or one with its own view of the database.\<close>

datatype txn = NoTxn | Pending "table option"

datatype ui_event =
    Picture nat string
  | Spinner string
  | Info string
  | Warning string
  | Error string
  | DownloadButton string

record llm_request =
  system_message :: string
  human_text :: string
  image_url :: string

text \<open>
  \<open>db\<close> is the file, \<open>conns\<close> the open connections by handle, \<open>statements\<close> the number
  of SQL statements run so far, \<open>page\<close> what Streamlit has rendered, \<open>requests\<close> the
  requests sent to the model, oldest first.
\<close>

record world =
  db :: db_file
  conns :: "(nat \<times> txn) list"
  statements :: nat
  page :: "ui_event list"
  requests :: "llm_request list"

text \<open>
  What the environment decides: the answer of the model chain to the \<open>n\<close>-th request (an
  exception, or the parsed JSON), the clock read by \<^verbatim>\<open>CURRENT_TIMESTAMP\<close>, whether PIL
  and Streamlit take the bytes as an image (if not, the exception they raise), Python's
  quoting of a string and SQLite's printing of a real.
\<close>

record env =
  chain_invoke :: "nat \<Rightarrow> llm_request \<Rightarrow> exn + pyval"
  current_timestamp :: "nat \<Rightarrow> string"
  image_open :: "byte list \<Rightarrow> exn option"
  repr_str :: "string \<Rightarrow> string"
  real_text :: "string \<Rightarrow> string"

record uploaded_file =
  file_name :: string
  file_type :: string
  file_bytes :: "byte list"
  file_pos :: nat

type_synonym 'a io = "world \<Rightarrow> (exn + 'a) \<times> world"

definition ret :: "'a \<Rightarrow> 'a io" where
  "ret x w = (Inr x, w)"

text \<open>Sequencing: an exception of the first part skips the second.\<close>

definition then_do :: "'a io \<Rightarrow> ('a \<Rightarrow> 'b io) \<Rightarrow> 'b io" where
  "then_do m f w = (case m w of (Inl e, w') \<Rightarrow> (Inl e, w') | (Inr x, w') \<Rightarrow> f x w')"

text \<open>\<^verbatim>\<open>try: m  except ...: h\<close>; the handler decides by the exception.\<close>

definition try_except :: "'a io \<Rightarrow> (exn \<Rightarrow> 'a io) \<Rightarrow> 'a io" where
  "try_except m h w = (case m w of (Inl e, w') \<Rightarrow> h e w' | (Inr x, w') \<Rightarrow> (Inr x, w'))"

text \<open>\<^verbatim>\<open>try: m  finally: fin\<close>: \<open>fin\<close> runs on every exit of \<open>m\<close>.\<close>

definition try_finally :: "'a io \<Rightarrow> unit io \<Rightarrow> 'a io" where
  "try_finally m fin w =
     (case m w of (r, w') \<Rightarrow>
        (case fin w' of (Inl e, w'') \<Rightarrow> (Inl e, w'') | (Inr u, w'') \<Rightarrow> (r, w'')))"

subsubsection \<open>sqlite3\<close>

definition set_txn :: "nat \<Rightarrow> txn \<Rightarrow> world \<Rightarrow> world" where
  "set_txn h s w = w\<lparr>conns := map (\<lambda>(k, v). if k = h then (k, s) else (k, v)) (conns w)\<rparr>"

text \<open>A handle that no open connection has.\<close>

definition new_handle :: "(nat \<times> txn) list \<Rightarrow> nat" where
  "new_handle cs = fold (\<lambda>(k, v) m. max (Suc k) m) cs 0"

text \<open>\<^verbatim>\<open>sqlite3.connect(DB_FILE)\<close> creates the file when there is none.\<close>

definition sqlite3_connect :: "nat io" where
  "sqlite3_connect w =
     (case db w of
        Unopenable \<Rightarrow> (Inl (Exn OperationalError ''unable to open database file''), w)
      | f \<Rightarrow>
         (Inr (new_handle (conns w)),
          w\<lparr>db := (if f = NoFile then Database None else f),
            conns := conns w @ [(new_handle (conns w), NoTxn)]\<rparr>))"

text \<open>The database as the connection sees it when it prepares a statement.\<close>

definition visible :: "world \<Rightarrow> nat \<Rightarrow> exn + table option" where
  "visible w h =
     (case map_of (conns w) h of
        None \<Rightarrow> Inl (Exn ProgrammingError ''Cannot operate on a closed database.'')
      | Some (Pending d) \<Rightarrow> Inr d
      | Some NoTxn \<Rightarrow>
         (case db w of
            Database d \<Rightarrow> Inr d
          | NoFile \<Rightarrow> Inr None
          | NotADatabase \<Rightarrow> Inl (Exn DatabaseError ''file is not a database'')
          | Unopenable \<Rightarrow> Inl (Exn OperationalError ''unable to open database file'')))"

text \<open>
  \<^verbatim>\<open>CREATE TABLE IF NOT EXISTS image_data (...)\<close>. The sqlite3 module opens no
  transaction for it, so outside a transaction it is written to the file at once.
\<close>

definition execute_create_table :: "nat \<Rightarrow> column list \<Rightarrow> unit io" where
  "execute_create_table h cols w =
     (case visible w h of
        Inl e \<Rightarrow> (Inl e, w)
      | Inr (Some t) \<Rightarrow> (Inr (), w\<lparr>statements := Suc (statements w)\<rparr>)
      | Inr None \<Rightarrow>
         (let t = \<lparr>tbl_columns = cols, tbl_rows = [], tbl_seq = 0\<rparr>;
              w' = w\<lparr>statements := Suc (statements w)\<rparr>
          in (Inr (),
              (case map_of (conns w) h of
                 Some (Pending d) \<Rightarrow> set_txn h (Pending (Some t)) w'
               | _ \<Rightarrow> w'\<lparr>db := Database (Some t)\<rparr>))))"

text \<open>
  \<^verbatim>\<open>INSERT INTO image_data (image_name, title, buildings, description) VALUES (?, ?, ?, ?)\<close>.
  The statement is prepared (the table and the columns must exist), a transaction is
  opened if none is, the parameters are bound, and the row is inserted into the
  transaction's view.
\<close>

definition execute_insert :: "env \<Rightarrow> nat \<Rightarrow> pyval list \<Rightarrow> unit io" where
  "execute_insert env h params w =
     (case visible w h of
        Inl e \<Rightarrow> (Inl e, w)
      | Inr None \<Rightarrow> (Inl (Exn OperationalError ''no such table: image_data''), w)
      | Inr (Some t) \<Rightarrow>
         (case find (\<lambda>n. find_col n (tbl_columns t) = None)
                    [''image_name'', ''title'', ''buildings'', ''description''] of
            Some n \<Rightarrow>
              (Inl (Exn OperationalError (''table image_data has no column named '' @ n)), w)
          | None \<Rightarrow>
             (let w1 = set_txn h (Pending (Some t)) w in
              case bind_parameters 1 params of
                Inl e \<Rightarrow> (Inl e, w1)
              | Inr vs \<Rightarrow>
                 (let w2 = w1\<lparr>statements := Suc (statements w1)\<rparr> in
                  case insert_row (real_text env) (current_timestamp env (statements w)) t
                         (zip [''image_name'', ''title'', ''buildings'', ''description''] vs) of
                    Inl e \<Rightarrow> (Inl e, w2)
                  | Inr t' \<Rightarrow> (Inr (), set_txn h (Pending (Some t')) w2)))))"

text \<open>
  \<^verbatim>\<open>SELECT COUNT(*) FROM image_data WHERE image_name = ?\<close> followed by
  \<^verbatim>\<open>cursor.fetchone()[0]\<close>.
\<close>

definition execute_select_count :: "env \<Rightarrow> nat \<Rightarrow> pyval \<Rightarrow> nat io" where
  "execute_select_count env h param w =
     (case visible w h of
        Inl e \<Rightarrow> (Inl e, w)
      | Inr None \<Rightarrow> (Inl (Exn OperationalError ''no such table: image_data''), w)
      | Inr (Some t) \<Rightarrow>
         (case bind_param 1 param of
            Inl e \<Rightarrow> (Inl e, w)
          | Inr v \<Rightarrow>
             (case select_count (real_text env) t v of
                Inl e \<Rightarrow> (Inl e, w)
              | Inr n \<Rightarrow> (Inr n, w\<lparr>statements := Suc (statements w)\<rparr>))))"

text \<open>\<^verbatim>\<open>db_conn.commit()\<close> writes the transaction's view to the file.\<close>

definition commit :: "nat \<Rightarrow> unit io" where
  "commit h w =
     (case map_of (conns w) h of
        None \<Rightarrow> (Inl (Exn ProgrammingError ''Cannot operate on a closed database.''), w)
      | Some NoTxn \<Rightarrow> (Inr (), w)
      | Some (Pending d) \<Rightarrow> (Inr (), set_txn h NoTxn (w\<lparr>db := Database d\<rparr>)))"

text \<open>\<^verbatim>\<open>db_conn.close()\<close> drops the connection and what it had not committed.\<close>

definition close :: "nat \<Rightarrow> unit io" where
  "close h w = (Inr (), w\<lparr>conns := filter (\<lambda>(k, v). k \<noteq> h) (conns w)\<rparr>)"

subsubsection \<open>Streamlit, PIL and the model chain\<close>

definition render :: "ui_event \<Rightarrow> unit io" where
  "render ev w = (Inr (), w\<lparr>page := page w @ [ev]\<rparr>)"

definition st_image :: "nat \<Rightarrow> string \<Rightarrow> unit io" where
  "st_image col caption = render (Picture col caption)"

definition st_spinner :: "string \<Rightarrow> unit io" where
  "st_spinner msg = render (Spinner msg)"

definition st_info :: "string \<Rightarrow> unit io" where
  "st_info msg = render (Info msg)"

definition st_warning :: "string \<Rightarrow> unit io" where
  "st_warning msg = render (Warning msg)"

definition st_error :: "string \<Rightarrow> unit io" where
  "st_error msg = render (Error msg)"

definition st_download_button :: "string \<Rightarrow> unit io" where
  "st_download_button label = render (DownloadButton label)"

text \<open>\<^verbatim>\<open>Image.open(io.BytesIO(bytes))\<close> raises when PIL cannot read the bytes.\<close>

definition pil_image_open :: "env \<Rightarrow> byte list \<Rightarrow> unit io" where
  "pil_image_open env bytes w =
     (case image_open env bytes of Some e \<Rightarrow> (Inl e, w) | None \<Rightarrow> (Inr (), w))"

text \<open>
  \<^verbatim>\<open>chain.invoke({})\<close>: the request is sent, and the chain raises or returns the parsed
  answer.
\<close>

definition invoke :: "env \<Rightarrow> llm_request \<Rightarrow> pyval io" where
  "invoke env prompt w =
     (let w' = w\<lparr>requests := requests w @ [prompt]\<rparr>
      in (chain_invoke env (length (requests w)) prompt, w'))"

text \<open>
  \<^verbatim>\<open>uploaded_file.read()\<close> returns the bytes from the position of the stream to its end
  and moves the position there; \<^verbatim>\<open>uploaded_file.seek(0)\<close> moves it to the start.
\<close>

definition file_read :: "uploaded_file \<Rightarrow> byte list \<times> uploaded_file" where
  "file_read f =
     (drop (file_pos f) (file_bytes f),
      f\<lparr>file_pos := max (file_pos f) (length (file_bytes f))\<rparr>)"

definition file_seek :: "nat \<Rightarrow> uploaded_file \<Rightarrow> uploaded_file" where
  "file_seek n f = f\<lparr>file_pos := n\<rparr>"

subsection \<open>The script\<close>

text \<open>The two bytes of the letter u with diaeresis in the German messages.\<close>

definition uuml :: string where
  "uuml = [CHR 0xC3, CHR 0xBC]"

text \<open>
  \<^verbatim>\<open>setup_database\<close> (lines 21-43). The cursor of a connection is the connection
  itself here.
\<close>

definition setup_database :: "unit io" where
  "setup_database =
     then_do sqlite3_connect (\<lambda>db_conn.
     then_do (execute_create_table db_conn image_data_columns) (\<lambda>u.
     then_do (commit db_conn) (\<lambda>u.
     close db_conn)))"

text \<open>The two messages of \<^verbatim>\<open>insert_image_data\<close> (lines 60 and 63).\<close>

definition duplicate_warning :: "string \<Rightarrow> string" where
  "duplicate_warning image_name =
     ''Bild '' @ quoted image_name @
     '' existiert bereits in der Datenbank und wird nicht erneut hinzugef'' @ uuml @ ''gt.''"

definition insert_error :: "string \<Rightarrow> exn \<Rightarrow> string" where
  "insert_error image_name e =
     ''Fehler beim Einf'' @ uuml @ ''gen von '' @ quoted image_name @
     '' in die Datenbank: '' @ str_exn e"

text \<open>\<^verbatim>\<open>insert_image_data\<close> (lines 45-66).\<close>

definition insert_image_data :: "env \<Rightarrow> string \<Rightarrow> pyval \<Rightarrow> pyval \<Rightarrow> pyval \<Rightarrow> bool io" where
  "insert_image_data env image_name title buildings description =
     then_do sqlite3_connect (\<lambda>db_conn.
     try_finally
       (try_except
          (then_do (execute_insert env db_conn [PStr image_name, title, buildings, description])
             (\<lambda>u.
           then_do (commit db_conn) (\<lambda>u.
           ret True)))
          (\<lambda>e.
             if exn_class_of e = IntegrityError
             then then_do (st_warning (duplicate_warning image_name)) (\<lambda>u. ret False)
             else then_do (st_error (insert_error image_name e)) (\<lambda>u. ret False)))
       (close db_conn))"

text \<open>\<^verbatim>\<open>image_exists_in_db\<close> (lines 68-75).\<close>

definition image_exists_in_db :: "env \<Rightarrow> string \<Rightarrow> bool io" where
  "image_exists_in_db env image_name =
     then_do sqlite3_connect (\<lambda>db_conn.
     then_do (execute_select_count env db_conn (PStr image_name)) (\<lambda>count.
     then_do (close db_conn) (\<lambda>u.
     ret (count > 0))))"

text \<open>The prompt of lines 116-136; the adjacent string literals are concatenated.\<close>

definition system_instruction :: string where
  "system_instruction =
     ''You are an expert at analyzing images.'' @
     ''Extract the title, buildings, and a description from the image.'' @
     ''Respond with a JSON object with the following keys: title, buildings, description.'' @
     ''For each key (title, buildings, description) you only give a single short line of text. You never use nested JSON objects.''"

definition prompt :: "string \<Rightarrow> llm_request" where
  "prompt base64_image =
     \<lparr>system_message = system_instruction,
      human_text = ''Describe the image.'',
      image_url = ''data:image/jpeg;base64,'' @ base64_image\<rparr>"

text \<open>Lines 144-146 and 148-150: a list becomes \<^verbatim>\<open>", ".join(map(str, the list))\<close>.\<close>

definition flatten :: "env \<Rightarrow> pyval \<Rightarrow> pyval" where
  "flatten env v =
     (if isinstance_list v then PStr (join '', '' (map (py_str (repr_str env)) (list_items v)))
      else v)"

text \<open>The body of the \<^verbatim>\<open>try\<close> of lines 111-158.\<close>

definition analyse :: "env \<Rightarrow> uploaded_file \<Rightarrow> unit io" where
  "analyse env uploaded_file =
     (let image_bytes_for_llm = fst (file_read uploaded_file);
          base64_image = encode_image_from_bytes image_bytes_for_llm
      in
      then_do (invoke env (prompt base64_image)) (\<lambda>extracted_data.
      then_do (\<lambda>w. (py_get extracted_data ''buildings'' (PStr ''No buildings identified''), w))
        (\<lambda>buildings.
      then_do (\<lambda>w. (py_get extracted_data ''description'' (PStr ''No description''), w))
        (\<lambda>description.
      then_do (\<lambda>w. (py_get extracted_data ''title'' (PStr ''No title''), w)) (\<lambda>title.
      then_do (insert_image_data env (file_name uploaded_file) title
                 (flatten env buildings) (flatten env description)) (\<lambda>inserted.
      ret ()))))))"

text \<open>The messages of the loop (lines 106, 110 and 164).\<close>

definition already_analysed :: "string \<Rightarrow> string" where
  "already_analysed name =
     ''Bild '' @ quoted name @ '' wurde bereits analysiert und befindet sich in der Datenbank.''"

definition analysing :: "string \<Rightarrow> string" where
  "analysing name = ''Analysiere '' @ quoted name @ ''...''"

definition analysis_error :: "string \<Rightarrow> exn \<Rightarrow> string" where
  "analysis_error name e = ''Fehler bei der Analyse von '' @ quoted name @ '': '' @ str_exn e"

text \<open>
  One turn of the loop of lines 96-164, for the file at index \<open>i\<close>. The display and the
  existence check stand outside the \<^verbatim>\<open>try\<close>; \<^verbatim>\<open>continue\<close> ends the turn.
\<close>

definition process_file :: "env \<Rightarrow> nat \<Rightarrow> uploaded_file \<Rightarrow> unit io" where
  "process_file env i uploaded_file =
     (let image_for_display = fst (file_read uploaded_file);
          rewound = file_seek 0 (snd (file_read uploaded_file))
      in
      then_do (pil_image_open env image_for_display) (\<lambda>image.
      then_do (st_image (i mod 4) (file_name uploaded_file)) (\<lambda>u.
      then_do (image_exists_in_db env (file_name uploaded_file)) (\<lambda>known.
      if known
      then st_info (already_analysed (file_name uploaded_file))
      else
        then_do (st_spinner (analysing (file_name uploaded_file))) (\<lambda>u.
        try_except (analyse env rewound)
          (\<lambda>e. st_error (analysis_error (file_name uploaded_file) e)))))))"

text \<open>The loop \<^verbatim>\<open>for i, uploaded_file in enumerate(uploaded_files)\<close>.\<close>

fun process_files :: "env \<Rightarrow> nat \<Rightarrow> uploaded_file list \<Rightarrow> unit io" where
  "process_files env i [] = ret ()"
| "process_files env i (uploaded_file # rest) =
     then_do (process_file env i uploaded_file) (\<lambda>u. process_files env (Suc i) rest)"

text \<open>The whole script, run once with the files of the uploader.\<close>

definition app :: "env \<Rightarrow> uploaded_file list \<Rightarrow> unit io" where
  "app env uploaded_files =
     then_do setup_database (\<lambda>u.
     then_do
       (if uploaded_files \<noteq> [] then process_files env 0 uploaded_files
        else st_info ''Bitte laden Sie JPG-Bilder hoch, um sie hier zu analysieren und anzuzeigen.'')
       (\<lambda>u w.
          if db w \<noteq> NoFile then st_download_button ''Download created Database'' w
          else (Inr (), w)))"

subsection \<open>Vocabulary of the statements\<close>

text \<open>
  The table has a row id left: the largest id ever assigned is below the largest 64-bit
  integer.
\<close>

definition ids_left :: "table \<Rightarrow> bool" where
  "ids_left t = (max (tbl_seq t) (max_rowid t) < 9223372036854775807)"

text \<open>
  The id the next inserted row gets.
\<close>

definition next_id :: "table \<Rightarrow> int" where
  "next_id t = max (tbl_seq t) (max_rowid t) + 1"

text \<open>
  Every handle of the list is below \<open>h\<close>.
\<close>

definition keys_below :: "nat \<Rightarrow> (nat \<times> txn) list \<Rightarrow> bool" where
  "keys_below h cs = list_all (\<lambda>(k, v). k < h) cs"

text \<open>
  The notice \<^verbatim>\<open>insert_image_data\<close> shows for an exception of
  \<^verbatim>\<open>execute\<close>.
\<close>

definition insert_notice :: "string \<Rightarrow> exn \<Rightarrow> ui_event" where
  "insert_notice n e =
     (if exn_class_of e = IntegrityError then Warning (duplicate_warning n)
      else Error (insert_error n e))"

text \<open>
  The exception of \<^verbatim>\<open>.get\<close> on a value that is not a dict.
\<close>

definition no_get :: "pyval \<Rightarrow> exn" where
  "no_get v =
     Exn AttributeError (quoted (type_name v) @ '' object has no attribute '' @ quoted ''get'')"

text \<open>
  \<^verbatim>\<open>isinstance(v, dict)\<close>
\<close>

definition is_dict :: "pyval \<Rightarrow> bool" where
  "is_dict v = (case v of PDict kvs \<Rightarrow> True | _ \<Rightarrow> False)"

text \<open>
  sqlite3 can bind the value to a parameter.
\<close>

definition bindable :: "pyval \<Rightarrow> bool" where
  "bindable v = (\<not> isl (bind_param 0 v))"

text \<open>
  The SQL value a bindable Python value is bound as.
\<close>

definition bound :: "pyval \<Rightarrow> sqlval" where
  "bound v = (case bind_param 0 v of Inr x \<Rightarrow> x | Inl e \<Rightarrow> SNull)"

text \<open>
  The cell a \<^verbatim>\<open>TEXT\<close> column keeps for a bound Python value.
\<close>

definition stored_cell :: "env \<Rightarrow> pyval \<Rightarrow> sqlval" where
  "stored_cell env v = apply_affinity (real_text env) TEXT (bound v)"

text \<open>
  What lines 144-157 hand to \<^verbatim>\<open>insert_image_data\<close> when the answer
  is the dict \<open>kvs\<close>.
\<close>

definition title_to_insert :: "(string \<times> pyval) list \<Rightarrow> pyval" where
  "title_to_insert kvs = dict_get kvs ''title'' (PStr ''No title'')"

definition buildings_to_insert :: "env \<Rightarrow> (string \<times> pyval) list \<Rightarrow> pyval" where
  "buildings_to_insert env kvs =
     flatten env (dict_get kvs ''buildings'' (PStr ''No buildings identified''))"

definition description_to_insert :: "env \<Rightarrow> (string \<times> pyval) list \<Rightarrow> pyval" where
  "description_to_insert env kvs =
     flatten env (dict_get kvs ''description'' (PStr ''No description''))"

text \<open>
  The row a turn of the loop inserts for the file name and the answer \<open>kvs\<close>,
  in a world \<open>w\<close> and a table \<open>t\<close>.
\<close>

definition new_row :: "env \<Rightarrow> world \<Rightarrow> table \<Rightarrow> string \<Rightarrow> (string \<times> pyval) list \<Rightarrow> sqlval list" where
  "new_row env w t name kvs =
     [SInt (next_id t), SText name, stored_cell env (title_to_insert kvs),
      stored_cell env (buildings_to_insert env kvs),
      stored_cell env (description_to_insert env kvs),
      SText (current_timestamp env (Suc (statements w)))]"

text \<open>
  The store takes the row made from the answer: the fields can be bound, an id is left,
  the title is not \<^verbatim>\<open>NULL\<close>.
\<close>

definition accepted :: "env \<Rightarrow> table \<Rightarrow> (string \<times> pyval) list \<Rightarrow> bool" where
  "accepted env t kvs =
     (bindable (title_to_insert kvs) \<and> bindable (buildings_to_insert env kvs) \<and>
      bindable (description_to_insert env kvs) \<and>
      ids_left t \<and>
      stored_cell env (title_to_insert kvs) \<noteq> SNull)"

text \<open>
  The number of rows with that \<^verbatim>\<open>image_name\<close>.
\<close>

definition stored :: "table \<Rightarrow> string \<Rightarrow> nat" where
  "stored t n = length (filter (\<lambda>r. field t r ''image_name'' = SText n) (tbl_rows t))"

text \<open>
  Inputs of the examples: an environment whose model always gives the same answer, a table
  of the script with given rows and sequence, a world at the start of a run, a stored row,
  and an uploaded file with the bytes of \<^verbatim>\<open>Man\<close>.
\<close>

definition example_env :: "(exn + pyval) \<Rightarrow> env" where
  "example_env answer =
     \<lparr>chain_invoke = (\<lambda>n req. answer),
      current_timestamp = (\<lambda>n. ''2025-01-01 00:00:00''),
      image_open = (\<lambda>bytes. None),
      repr_str = quoted,
      real_text = (\<lambda>r. r)\<rparr>"

definition example_table :: "sqlval list list \<Rightarrow> int \<Rightarrow> table" where
  "example_table rows k = \<lparr>tbl_columns = image_data_columns, tbl_rows = rows, tbl_seq = k\<rparr>"

definition example_world :: "db_file \<Rightarrow> world" where
  "example_world f = \<lparr>db = f, conns = [], statements = 0, page = [], requests = []\<rparr>"

definition row_a :: "sqlval list" where
  "row_a = [SInt 1, SText ''a.jpg'', SText ''Old town'', SText ''Town hall'', SNull,
            SText ''2024-12-31 23:59:59'']"

definition example_file :: "string \<Rightarrow> string \<Rightarrow> uploaded_file" where
  "example_file n ty = \<lparr>file_name = n, file_type = ty, file_bytes = [77, 97, 110], file_pos = 0\<rparr>"

text \<open>
  The row ids are strictly increasing in the order of the rows, and none is above the
  sequence of the table.
\<close>

definition ids_ok :: "table \<Rightarrow> bool" where
  "ids_ok t = (sorted_wrt (<) (rowids t) \<and> list_all (\<lambda>k. k \<le> tbl_seq t) (rowids t))"

section \<open>Properties\<close>

lemma fold_max_ge: "m \<le> fold (\<lambda>(k, v) m. max (Suc k) m) cs (m::nat)"
proof (induction cs arbitrary: m)
  case Nil
  then show ?case by simp
next
  case (Cons c cs)
  have "max (Suc (fst c)) m \<le> fold (\<lambda>(k, v) m. max (Suc k) m) cs (max (Suc (fst c)) m)"
    by (rule Cons.IH)
  then show ?case by (cases c) simp
qed

lemma keys_below_fold:
  "keys_below (fold (\<lambda>(k, v) m. max (Suc k) m) cs m) (cs :: (nat \<times> txn) list)"
proof (induction cs arbitrary: m)
  case Nil
  then show ?case by (simp add: keys_below_def)
next
  case (Cons c cs)
  obtain k v where c: "c = (k, v)" by (cases c)
  have "max (Suc k) m \<le> fold (\<lambda>(k, v) m. max (Suc k) m) cs (max (Suc k) m)"
    by (rule fold_max_ge)
  then have "k < fold (\<lambda>(k, v) m. max (Suc k) m) cs (max (Suc k) m)" by simp
  with Cons.IH [of "max (Suc k) m"] show ?case by (simp add: keys_below_def c)
qed

lemma keys_below_new_handle: "keys_below (new_handle cs) cs"
  unfolding new_handle_def by (rule keys_below_fold)

lemma keys_below_map_of: "keys_below h cs \<Longrightarrow> map_of (cs @ [(h, s)]) h = Some s"
  unfolding keys_below_def by (induction cs) auto

lemma keys_below_set_txn:
  "keys_below h cs \<Longrightarrow>
   map (\<lambda>(k, v). if k = h then (k, s') else (k, v)) (cs @ [(h, s)]) = cs @ [(h, s')]"
  unfolding keys_below_def by (induction cs) auto

lemma keys_below_filter:
  "keys_below h cs \<Longrightarrow> filter (\<lambda>(k, v). k \<noteq> h) (cs @ [(h, s)]) = cs"
  unfolding keys_below_def by (induction cs) auto

lemma connect_Database:
  "db w = Database d \<Longrightarrow>
   sqlite3_connect w =
     (Inr (new_handle (conns w)), w\<lparr>conns := conns w @ [(new_handle (conns w), NoTxn)]\<rparr>)"
  by (simp add: sqlite3_connect_def)

lemma visible_last:
  "conns w = cs @ [(h, s)] \<Longrightarrow> keys_below h cs \<Longrightarrow> db w = Database d \<Longrightarrow>
   visible w h = Inr (case s of NoTxn \<Rightarrow> d | Pending d' \<Rightarrow> d')"
  by (simp add: visible_def keys_below_map_of del: map_of_append split: txn.splits)

lemma set_txn_last:
  "conns w = cs @ [(h, s)] \<Longrightarrow> keys_below h cs \<Longrightarrow>
   set_txn h s' w = w\<lparr>conns := cs @ [(h, s')]\<rparr>"
  by (simp add: set_txn_def keys_below_set_txn del: map_append)

lemma close_last:
  "conns w = cs @ [(h, s)] \<Longrightarrow> keys_below h cs \<Longrightarrow>
   close h w = (Inr (), w\<lparr>conns := cs\<rparr>)"
  by (simp add: close_def keys_below_filter del: filter_append)

lemma commit_last:
  "conns w = cs @ [(h, s)] \<Longrightarrow> keys_below h cs \<Longrightarrow>
   commit h w =
     (Inr (), case s of NoTxn \<Rightarrow> w | Pending d \<Rightarrow> w\<lparr>db := Database d, conns := cs @ [(h, NoTxn)]\<rparr>)"
  by (simp add: commit_def keys_below_map_of keys_below_set_txn set_txn_def del: map_of_append map_append split: txn.splits)

lemma schema_find_col:
  "find_col ''id'' image_data_columns = Some 0"
  "find_col ''image_name'' image_data_columns = Some 1"
  "find_col ''title'' image_data_columns = Some 2"
  "find_col ''buildings'' image_data_columns = Some 3"
  "find_col ''description'' image_data_columns = Some 4"
  "find_col ''time_added'' image_data_columns = Some 5"
  by (simp_all add: image_data_columns_def)

lemma select_count_schema:
  "tbl_columns t = image_data_columns \<Longrightarrow>
   select_count rt t (SText n) = Inr (length (filter (\<lambda>r. cell r 1 = SText n) (tbl_rows t)))"
  by (simp add: select_count_def schema_find_col apply_affinity_def image_data_columns_def)

lemma exists_ok:
  assumes d: "db w = Database (Some t)" and s: "tbl_columns t = image_data_columns"
  shows "image_exists_in_db env n w =
     (Inr (0 < length (filter (\<lambda>r. cell r 1 = SText n) (tbl_rows t))),
      w\<lparr>statements := Suc (statements w)\<rparr>)"
proof -
  let ?h = "new_handle (conns w)"
  let ?w1 = "w\<lparr>conns := conns w @ [(?h, NoTxn)]\<rparr>"
  have k: "keys_below ?h (conns w)" by (rule keys_below_new_handle)
  have v: "visible ?w1 ?h = Inr (Some t)"
    using visible_last [of ?w1 "conns w" ?h NoTxn "Some t"] k d by simp
  have e: "execute_select_count env ?h (PStr n) ?w1 =
      (Inr (length (filter (\<lambda>r. cell r 1 = SText n) (tbl_rows t))),
       ?w1\<lparr>statements := Suc (statements w)\<rparr>)"
    by (simp add: execute_select_count_def v select_count_schema [OF s])
  have cl: "close ?h (?w1\<lparr>statements := Suc (statements w)\<rparr>) =
      (Inr (), w\<lparr>statements := Suc (statements w)\<rparr>)"
    using close_last [of "?w1\<lparr>statements := Suc (statements w)\<rparr>" "conns w" ?h NoTxn] k
    by simp
  show ?thesis
    by (simp add: image_exists_in_db_def then_do_def connect_Database [OF d] e cl ret_def)
qed

lemma insert_row_schema:
  assumes s: "tbl_columns t = image_data_columns"
  shows "insert_row rt now t
           [(''image_name'', nv), (''title'', tv), (''buildings'', bv), (''description'', dv)] =
     (if 9223372036854775807 \<le> max (tbl_seq t) (max_rowid t)
      then Inl (Exn OperationalError ''database or disk is full'')
      else if apply_affinity rt TEXT nv = SNull
      then Inl (Exn IntegrityError ''NOT NULL constraint failed: image_data.image_name'')
      else if apply_affinity rt TEXT tv = SNull
      then Inl (Exn IntegrityError ''NOT NULL constraint failed: image_data.title'')
      else if list_ex (\<lambda>r. cell r 1 = apply_affinity rt TEXT nv) (tbl_rows t)
      then Inl (Exn IntegrityError ''UNIQUE constraint failed: image_data.image_name'')
      else Inr (t\<lparr>tbl_rows := tbl_rows t @
                     [[SInt (max (tbl_seq t) (max_rowid t) + 1), apply_affinity rt TEXT nv,
                       apply_affinity rt TEXT tv, apply_affinity rt TEXT bv,
                       apply_affinity rt TEXT dv, SText now]],
                  tbl_seq := max (tbl_seq t) (max_rowid t) + 1\<rparr>))"
  unfolding insert_row_def s
  by (simp add: image_data_columns_def Let_def needs_rowid_def assign_rowid_def
      not_null_violation_def unique_violation_def default_value_def cell_def
      apply_affinity_def [of rt INTEGER] apply_affinity_def [of rt DATETIME])

lemma execute_insert_last:
  assumes c: "conns w = cs @ [(h, NoTxn)]" and k: "keys_below h cs"
    and d: "db w = Database (Some t)" and s: "tbl_columns t = image_data_columns"
  shows "execute_insert env h params w =
     (case bind_parameters 1 params of
        Inl e \<Rightarrow> (Inl e, w\<lparr>conns := cs @ [(h, Pending (Some t))]\<rparr>)
      | Inr vs \<Rightarrow>
         (case insert_row (real_text env) (current_timestamp env (statements w)) t
                 (zip [''image_name'', ''title'', ''buildings'', ''description''] vs) of
            Inl e \<Rightarrow> (Inl e, w\<lparr>conns := cs @ [(h, Pending (Some t))],
                                statements := Suc (statements w)\<rparr>)
          | Inr t' \<Rightarrow> (Inr (), w\<lparr>conns := cs @ [(h, Pending (Some t'))],
                                statements := Suc (statements w)\<rparr>)))"
proof -
  have v: "visible w h = Inr (Some t)"
    using visible_last [OF c k d] by simp
  have b: "set_txn h (Pending (Some t)) w = w\<lparr>conns := cs @ [(h, Pending (Some t))]\<rparr>"
    by (rule set_txn_last [OF c k])
  have b2: "\<And>t'. set_txn h (Pending (Some t'))
              (w\<lparr>conns := cs @ [(h, Pending (Some t))], statements := Suc (statements w)\<rparr>) =
            w\<lparr>conns := cs @ [(h, Pending (Some t'))], statements := Suc (statements w)\<rparr>"
    using set_txn_last [of "w\<lparr>conns := cs @ [(h, Pending (Some t))], statements := Suc (statements w)\<rparr>"
        cs h "Pending (Some t)"] k by simp
  show ?thesis
    by (simp add: execute_insert_def v s schema_find_col b b2 Let_def
        split: sum.splits)
qed

lemma insert_row_image_data:
  assumes s: "tbl_columns t = image_data_columns"
  shows "insert_row rt now t
           [(''image_name'', nv), (''title'', tv), (''buildings'', bv), (''description'', dv)] =
     (if \<not> ids_left t
      then Inl (Exn OperationalError ''database or disk is full'')
      else if apply_affinity rt TEXT nv = SNull
      then Inl (Exn IntegrityError ''NOT NULL constraint failed: image_data.image_name'')
      else if apply_affinity rt TEXT tv = SNull
      then Inl (Exn IntegrityError ''NOT NULL constraint failed: image_data.title'')
      else if list_ex (\<lambda>r. cell r 1 = apply_affinity rt TEXT nv) (tbl_rows t)
      then Inl (Exn IntegrityError ''UNIQUE constraint failed: image_data.image_name'')
      else Inr (t\<lparr>tbl_rows := tbl_rows t @
                     [[SInt (next_id t), apply_affinity rt TEXT nv,
                       apply_affinity rt TEXT tv, apply_affinity rt TEXT bv,
                       apply_affinity rt TEXT dv, SText now]],
                  tbl_seq := next_id t\<rparr>))"
  unfolding ids_left_def next_id_def not_less by (rule insert_row_schema [OF s])

lemma insert_ok:
  assumes d: "db w = Database (Some t)" and s: "tbl_columns t = image_data_columns"
  shows "insert_image_data env n title b dsc w =
     (case bind_parameters 1 [PStr n, title, b, dsc] of
        Inl e \<Rightarrow> (Inr False, w\<lparr>page := page w @ [insert_notice n e]\<rparr>)
      | Inr vs \<Rightarrow>
         (case insert_row (real_text env) (current_timestamp env (statements w)) t
                 (zip [''image_name'', ''title'', ''buildings'', ''description''] vs) of
            Inl e \<Rightarrow> (Inr False, w\<lparr>page := page w @ [insert_notice n e],
                                    statements := Suc (statements w)\<rparr>)
          | Inr t' \<Rightarrow> (Inr True, w\<lparr>db := Database (Some t'),
                                   statements := Suc (statements w)\<rparr>)))"
proof -
  let ?h = "new_handle (conns w)"
  let ?w1 = "w\<lparr>conns := conns w @ [(?h, NoTxn)]\<rparr>"
  let ?ps = "[PStr n, title, b, dsc]"
  have k: "keys_below ?h (conns w)" by (rule keys_below_new_handle)
  have c1: "conns ?w1 = conns w @ [(?h, NoTxn)]" by simp
  have d1: "db ?w1 = Database (Some t)" using d by simp
  note e = execute_insert_last [OF c1 k d1 s, of env ?ps]
  have cl: "\<And>w' s. conns w' = conns w @ [(?h, s)] \<Longrightarrow> close ?h w' = (Inr (), w'\<lparr>conns := conns w\<rparr>)"
    using close_last k by blast
  have cm: "\<And>w' d'. conns w' = conns w @ [(?h, Pending d')] \<Longrightarrow>
      commit ?h w' = (Inr (), w'\<lparr>db := Database d', conns := conns w @ [(?h, NoTxn)]\<rparr>)"
    using commit_last [OF _ k] by fastforce
  show ?thesis
  proof (cases "bind_parameters 1 ?ps")
    case (Inl x)
    have "execute_insert env ?h ?ps ?w1 = (Inl x, ?w1\<lparr>conns := conns w @ [(?h, Pending (Some t))]\<rparr>)"
      unfolding e Inl by simp
    then show ?thesis
      unfolding insert_image_data_def Inl
      by (simp add: then_do_def try_finally_def try_except_def connect_Database [OF d] cl
          ret_def st_warning_def st_error_def render_def insert_notice_def
          del: bind_parameters.simps)
  next
    case (Inr vs)
    show ?thesis
    proof (cases "insert_row (real_text env) (current_timestamp env (statements w)) t
                 (zip [''image_name'', ''title'', ''buildings'', ''description''] vs)")
      case (Inl x)
      have "execute_insert env ?h ?ps ?w1 =
          (Inl x, ?w1\<lparr>conns := conns w @ [(?h, Pending (Some t))],
                       statements := Suc (statements ?w1)\<rparr>)"
        unfolding e Inr using Inl by simp
      then show ?thesis
        unfolding insert_image_data_def Inr
        using Inl
        by (simp add: then_do_def try_finally_def try_except_def connect_Database [OF d] cl
            ret_def st_warning_def st_error_def render_def insert_notice_def
            del: bind_parameters.simps)
    next
      case (Inr t')
      have "execute_insert env ?h ?ps ?w1 =
          (Inr (), ?w1\<lparr>conns := conns w @ [(?h, Pending (Some t'))],
                       statements := Suc (statements ?w1)\<rparr>)"
        unfolding e \<open>bind_parameters 1 ?ps = Inr vs\<close> using Inr by simp
      then show ?thesis
        unfolding insert_image_data_def \<open>bind_parameters 1 ?ps = Inr vs\<close>
        using Inr
        by (simp add: then_do_def try_finally_def try_except_def connect_Database [OF d] cl cm
            ret_def del: bind_parameters.simps)
    qed
  qed
qed

lemma py_get_not_dict: "\<not> is_dict v \<Longrightarrow> py_get v k d = Inl (no_get v)"
  by (cases v) (simp_all add: is_dict_def no_get_def)

lemma analyse_raises:
  assumes "file_pos f = 0"
    and "chain_invoke env (length (requests w)) (prompt (b64encode (file_bytes f))) = Inl e"
  shows "analyse env f w =
     (Inl e, w\<lparr>requests := requests w @ [prompt (b64encode (file_bytes f))]\<rparr>)"
  using assms
  by (simp add: analyse_def Let_def file_read_def encode_image_from_bytes_def invoke_def
      then_do_def)

lemma analyse_not_dict:
  assumes "file_pos f = 0"
    and "chain_invoke env (length (requests w)) (prompt (b64encode (file_bytes f))) = Inr v"
    and "\<not> is_dict v"
  shows "analyse env f w =
     (Inl (no_get v), w\<lparr>requests := requests w @ [prompt (b64encode (file_bytes f))]\<rparr>)"
  using assms
  by (simp add: analyse_def Let_def file_read_def encode_image_from_bytes_def invoke_def
      then_do_def py_get_not_dict)

lemma analyse_dict:
  assumes "file_pos f = 0"
    and "chain_invoke env (length (requests w)) (prompt (b64encode (file_bytes f))) =
           Inr (PDict kvs)"
  shows "analyse env f w =
     then_do (insert_image_data env (file_name f) (dict_get kvs ''title'' (PStr ''No title''))
                (flatten env (dict_get kvs ''buildings'' (PStr ''No buildings identified'')))
                (flatten env (dict_get kvs ''description'' (PStr ''No description''))))
             (\<lambda>inserted. ret ())
             (w\<lparr>requests := requests w @ [prompt (b64encode (file_bytes f))]\<rparr>)"
  using assms
  by (simp add: analyse_def Let_def file_read_def encode_image_from_bytes_def invoke_def
      then_do_def)

lemma process_file_display_fails:
  assumes "image_open env (drop (file_pos f) (file_bytes f)) = Some e"
  shows "process_file env i f w = (Inl e, w)"
  using assms
  by (simp add: process_file_def Let_def file_read_def pil_image_open_def then_do_def)

lemma process_file_checked:
  assumes "image_open env (drop (file_pos f) (file_bytes f)) = None"
    and "db w = Database (Some t)" and "tbl_columns t = image_data_columns"
  shows "process_file env i f w =
     (let w1 = w\<lparr>statements := Suc (statements w),
                  page := page w @ [Picture (i mod 4) (file_name f)]\<rparr>
      in if 0 < length (filter (\<lambda>r. cell r 1 = SText (file_name f)) (tbl_rows t))
         then (Inr (), w1\<lparr>page := page w1 @
                 [Info (already_analysed (file_name f))]\<rparr>)
         else try_except (analyse env (f\<lparr>file_pos := 0\<rparr>))
                (\<lambda>e. render (Error (analysis_error (file_name f) e)))
                (w1\<lparr>page := page w1 @
                    [Spinner (analysing (file_name f))]\<rparr>))"
proof -
  let ?w0 = "w\<lparr>page := page w @ [Picture (i mod 4) (file_name f)]\<rparr>"
  have x: "image_exists_in_db env (file_name f) ?w0 =
     (Inr (0 < length (filter (\<lambda>r. cell r 1 = SText (file_name f)) (tbl_rows t))),
      ?w0\<lparr>statements := Suc (statements ?w0)\<rparr>)"
    by (rule exists_ok) (use assms in simp_all)
  show ?thesis
    using assms(1)
    by (simp add: process_file_def Let_def file_read_def file_seek_def pil_image_open_def
        then_do_def st_image_def render_def x st_info_def st_spinner_def st_error_def
        analysis_error_def)
qed

lemma exists_frame:
  "image_exists_in_db env n w = (r, w') \<Longrightarrow>
   requests w' = requests w \<and> page w' = page w \<and> (r = Inr True \<longrightarrow> db w' = db w)"
  by (auto simp add: image_exists_in_db_def then_do_def sqlite3_connect_def
      execute_select_count_def visible_def keys_below_map_of [OF keys_below_new_handle]
      close_def ret_def
      simp del: map_of_append
      split: db_file.splits sum.splits option.splits txn.splits prod.splits if_splits)

lemma insert_returns:
  assumes "db w = Database (Some t)" and "tbl_columns t = image_data_columns"
  shows "\<exists>b. fst (insert_image_data env n title bs dsc w) = Inr b"
  unfolding insert_ok [OF assms]
  by (auto split: sum.splits simp del: bind_parameters.simps)

lemma then_do_ret_unit:
  "fst (m w) = Inr b \<Longrightarrow> then_do m (\<lambda>x. ret ()) w = (Inr (), snd (m w))"
  by (cases "m w") (simp add: then_do_def ret_def)

lemma process_file_new:
  assumes o: "image_open env (drop (file_pos f) (file_bytes f)) = None"
    and d: "db w = Database (Some t)" and s: "tbl_columns t = image_data_columns"
    and n: "filter (\<lambda>r. cell r 1 = SText (file_name f)) (tbl_rows t) = []"
  shows "process_file env i f w =
     (let req = prompt (b64encode (file_bytes f));
          w2 = w\<lparr>statements := Suc (statements w),
                 page := page w @ [Picture (i mod 4) (file_name f),
                                   Spinner (analysing (file_name f))],
                 requests := requests w @ [req]\<rparr>
      in case chain_invoke env (length (requests w)) req of
           Inl e \<Rightarrow> (Inr (), w2\<lparr>page := page w2 @ [Error (analysis_error (file_name f) e)]\<rparr>)
         | Inr v \<Rightarrow>
            (if is_dict v
             then (Inr (),
                   snd (insert_image_data env (file_name f)
                          (dict_get (case v of PDict kvs \<Rightarrow> kvs | _ \<Rightarrow> []) ''title'' (PStr ''No title''))
                          (flatten env (dict_get (case v of PDict kvs \<Rightarrow> kvs | _ \<Rightarrow> [])
                                          ''buildings'' (PStr ''No buildings identified'')))
                          (flatten env (dict_get (case v of PDict kvs \<Rightarrow> kvs | _ \<Rightarrow> [])
                                          ''description'' (PStr ''No description'')))
                          w2))
             else (Inr (), w2\<lparr>page := page w2 @ [Error (analysis_error (file_name f) (no_get v))]\<rparr>)))"
proof -
  let ?req = "prompt (b64encode (file_bytes f))"
  let ?w1 = "w\<lparr>statements := Suc (statements w),
                 page := page w @ [Picture (i mod 4) (file_name f),
                                   Spinner (analysing (file_name f))]\<rparr>"
  let ?f0 = "f\<lparr>file_pos := 0\<rparr>"
  have pf: "process_file env i f w =
      try_except (analyse env ?f0) (\<lambda>e. render (Error (analysis_error (file_name f) e))) ?w1"
    using process_file_checked [OF o d s, of i] n by (simp add: Let_def)
  show ?thesis
  proof (cases "chain_invoke env (length (requests w)) ?req")
    case (Inl e)
    have "analyse env ?f0 ?w1 = (Inl e, ?w1\<lparr>requests := requests ?w1 @ [?req]\<rparr>)"
      using analyse_raises [of ?f0 env ?w1 e] Inl by simp
    then show ?thesis
      unfolding pf using Inl by (simp add: try_except_def render_def Let_def)
  next
    case (Inr v)
    show ?thesis
    proof (cases "is_dict v")
      case False
      have "analyse env ?f0 ?w1 = (Inl (no_get v), ?w1\<lparr>requests := requests ?w1 @ [?req]\<rparr>)"
        using analyse_not_dict [of ?f0 env ?w1 v] Inr False by simp
      then show ?thesis
        unfolding pf using Inr False by (simp add: try_except_def render_def Let_def)
    next
      case True
      then obtain kvs where v: "v = PDict kvs" by (cases v) (simp_all add: is_dict_def)
      let ?w2 = "?w1\<lparr>requests := requests ?w1 @ [?req]\<rparr>"
      let ?ins = "insert_image_data env (file_name f) (dict_get kvs ''title'' (PStr ''No title''))
                (flatten env (dict_get kvs ''buildings'' (PStr ''No buildings identified'')))
                (flatten env (dict_get kvs ''description'' (PStr ''No description'')))"
      have a: "analyse env ?f0 ?w1 = then_do ?ins (\<lambda>inserted. ret ()) ?w2"
        using analyse_dict [of ?f0 env ?w1 kvs] Inr v by simp
      have "\<exists>b. fst (?ins ?w2) = Inr b"
        by (rule insert_returns [of ?w2 t]) (use d s in simp_all)
      then obtain b where b: "fst (?ins ?w2) = Inr b" ..
      have "then_do ?ins (\<lambda>inserted. ret ()) ?w2 = (Inr (), snd (?ins ?w2))"
        using b by (rule then_do_ret_unit [of ?ins ?w2 b])
      then show ?thesis
        unfolding pf using Inr v True a by (simp add: try_except_def Let_def)
    qed
  qed
qed

lemma bind_param_bindable: "bindable v \<Longrightarrow> bind_param i v = Inr (bound v)"
  by (cases v) (simp_all add: bindable_def bound_def split: if_splits)

lemma bind_param_not_bindable: "\<not> bindable v \<Longrightarrow> isl (bind_param i v)"
  by (cases v) (simp_all add: bindable_def split: if_splits)

lemma bind_parameters_four:
  "bind_parameters 1 [PStr n, a, b, c] =
     (if bindable a then
        (if bindable b then
           (if bindable c then Inr [SText n, bound a, bound b, bound c]
            else Inl (projl (bind_param 4 c)))
         else Inl (projl (bind_param 3 b)))
      else Inl (projl (bind_param 2 a)))"
proof -
  have x: "\<And>i v. \<not> bindable v \<Longrightarrow> \<exists>e. bind_param i v = Inl e"
    using bind_param_not_bindable by (metis sum.collapse(1))
  have n: "Suc (Suc 0) = 2" "Suc 2 = 3" "Suc 3 = 4" by simp_all
  show ?thesis
  proof (cases "bindable a")
    case False
    from x [OF False, of 2] obtain e where "bind_param 2 a = Inl e" ..
    then show ?thesis using False by (simp add: n)
  next
    case a: True
    show ?thesis
    proof (cases "bindable b")
      case False
      from x [OF False, of 3] obtain e where "bind_param 3 b = Inl e" ..
      then show ?thesis using a False
        by (simp add: n bind_param_bindable [OF a])
    next
      case b: True
      show ?thesis
      proof (cases "bindable c")
        case False
        from x [OF False, of 4] obtain e where "bind_param 4 c = Inl e" ..
        then show ?thesis using a b False
          by (simp add: n bind_param_bindable [OF a] bind_param_bindable [OF b])
      next
        case True
        then show ?thesis using a b
          by (simp add: n bind_param_bindable)
      qed
    qed
  qed
qed

lemma bind_error_class:
  "isl (bind_param i v) \<Longrightarrow> exn_class_of (projl (bind_param i v)) \<noteq> IntegrityError"
  by (cases v) (auto split: if_splits)

lemma insert_cases:
  assumes d: "db w = Database (Some t)" and s: "tbl_columns t = image_data_columns"
  shows "insert_image_data env n title b dsc w =
     (if \<not> bindable title
      then (Inr False,
            w\<lparr>page := page w @ [Error (insert_error n (projl (bind_param 2 title)))]\<rparr>)
      else if \<not> bindable b
      then (Inr False,
            w\<lparr>page := page w @ [Error (insert_error n (projl (bind_param 3 b)))]\<rparr>)
      else if \<not> bindable dsc
      then (Inr False,
            w\<lparr>page := page w @ [Error (insert_error n (projl (bind_param 4 dsc)))]\<rparr>)
      else if \<not> ids_left t
      then (Inr False,
            w\<lparr>page := page w @
                   [Error (insert_error n (Exn OperationalError ''database or disk is full''))],
              statements := Suc (statements w)\<rparr>)
      else if stored_cell env title = SNull
              \<or> list_ex (\<lambda>r. cell r 1 = SText n) (tbl_rows t)
      then (Inr False,
            w\<lparr>page := page w @ [Warning (duplicate_warning n)],
              statements := Suc (statements w)\<rparr>)
      else (Inr True,
            w\<lparr>db := Database (Some (t\<lparr>tbl_rows := tbl_rows t @
                         [[SInt (next_id t), SText n, stored_cell env title, stored_cell env b,
                           stored_cell env dsc, SText (current_timestamp env (statements w))]],
                       tbl_seq := next_id t\<rparr>)),
              statements := Suc (statements w)\<rparr>))"
proof -
  have a: "apply_affinity (real_text env) TEXT (SText n) = SText n"
    by (simp add: apply_affinity_def)
  have z: "[SText n, bound title, bound b, bound dsc] = [SText n, bound title, bound b, bound dsc]"
    by simp
  note r = insert_row_image_data [OF s, of "real_text env" "current_timestamp env (statements w)"
      "SText n" "bound title" "bound b" "bound dsc"]
  show ?thesis
    unfolding insert_ok [OF d s] bind_parameters_four
    using bind_error_class [of 2 title] bind_error_class [of 3 b] bind_error_class [of 4 dsc]
      bind_param_not_bindable [of title 2] bind_param_not_bindable [of b 3]
      bind_param_not_bindable [of dsc 4]
    by (simp add: r a insert_notice_def stored_cell_def)
qed

lemma process_file_dict:
  assumes o: "image_open env (drop (file_pos f) (file_bytes f)) = None"
    and d: "db w = Database (Some t)" and s: "tbl_columns t = image_data_columns"
    and n: "filter (\<lambda>r. cell r 1 = SText (file_name f)) (tbl_rows t) = []"
    and c: "chain_invoke env (length (requests w)) (prompt (b64encode (file_bytes f))) =
              Inr (PDict kvs)"
  shows "process_file env i f w =
     (Inr (),
      snd (insert_image_data env (file_name f) (title_to_insert kvs)
             (buildings_to_insert env kvs) (description_to_insert env kvs)
             (w\<lparr>statements := Suc (statements w),
                page := page w @ [Picture (i mod 4) (file_name f),
                                  Spinner (analysing (file_name f))],
                requests := requests w @ [prompt (b64encode (file_bytes f))]\<rparr>)))"
  unfolding process_file_new [OF o d s n]
  by (simp add: c Let_def is_dict_def title_to_insert_def buildings_to_insert_def
      description_to_insert_def)

lemma process_file_persists:
  assumes o: "image_open env (drop (file_pos f) (file_bytes f)) = None"
    and d: "db w = Database (Some t)" and s: "tbl_columns t = image_data_columns"
    and n: "filter (\<lambda>r. cell r 1 = SText (file_name f)) (tbl_rows t) = []"
    and c: "chain_invoke env (length (requests w)) (prompt (b64encode (file_bytes f))) =
              Inr (PDict kvs)"
    and a: "accepted env t kvs"
  shows "process_file env i f w =
     (Inr (),
      w\<lparr>db := Database (Some (t\<lparr>tbl_rows := tbl_rows t @ [new_row env w t (file_name f) kvs],
                                 tbl_seq := next_id t\<rparr>)),
        statements := Suc (Suc (statements w)),
        page := page w @ [Picture (i mod 4) (file_name f), Spinner (analysing (file_name f))],
        requests := requests w @ [prompt (b64encode (file_bytes f))]\<rparr>)"
proof -
  let ?w2 = "w\<lparr>statements := Suc (statements w),
                page := page w @ [Picture (i mod 4) (file_name f),
                                  Spinner (analysing (file_name f))],
                requests := requests w @ [prompt (b64encode (file_bytes f))]\<rparr>"
  have d2: "db ?w2 = Database (Some t)" using d by simp
  have e: "\<not> list_ex (\<lambda>r. cell r 1 = SText (file_name f)) (tbl_rows t)"
    using n by (simp add: list_ex_iff filter_empty_conv)
  show ?thesis
    unfolding process_file_dict [OF o d s n c] insert_cases [OF d2 s]
    using a e by (simp add: accepted_def new_row_def)
qed

lemma process_file_db:
  assumes d: "db w = Database (Some t)" and s: "tbl_columns t = image_data_columns"
  shows "db (snd (process_file env i f w)) = db w \<or>
     (\<exists>kvs. chain_invoke env (length (requests w)) (prompt (b64encode (file_bytes f))) =
              Inr (PDict kvs) \<and>
            image_open env (drop (file_pos f) (file_bytes f)) = None \<and>
            filter (\<lambda>r. cell r 1 = SText (file_name f)) (tbl_rows t) = [] \<and>
            accepted env t kvs)"
proof (cases "image_open env (drop (file_pos f) (file_bytes f))")
  case (Some e)
  then show ?thesis by (simp add: process_file_display_fails)
next
  case None
  show ?thesis
  proof (cases "filter (\<lambda>r. cell r 1 = SText (file_name f)) (tbl_rows t) = []")
    case False
    then show ?thesis
      unfolding process_file_checked [OF None d s] by (simp add: Let_def)
  next
    case True
    let ?w2 = "w\<lparr>statements := Suc (statements w),
                page := page w @ [Picture (i mod 4) (file_name f),
                                  Spinner (analysing (file_name f))],
                requests := requests w @ [prompt (b64encode (file_bytes f))]\<rparr>"
    have d2: "db ?w2 = Database (Some t)" using d by simp
    show ?thesis
    proof (cases "chain_invoke env (length (requests w)) (prompt (b64encode (file_bytes f)))")
      case (Inl e)
      then show ?thesis
        unfolding process_file_new [OF None d s True] by (simp add: Let_def)
    next
      case (Inr v)
      show ?thesis
      proof (cases v)
        case (PDict kvs)
        with Inr have c: "chain_invoke env (length (requests w)) (prompt (b64encode (file_bytes f))) =
              Inr (PDict kvs)" by simp
        show ?thesis
          unfolding process_file_dict [OF None d s True c] insert_cases [OF d2 s]
          using c None True by (auto simp add: accepted_def)
      qed (use Inr in \<open>simp_all add: process_file_new [OF None d s True] Let_def is_dict_def\<close>)
    qed
  qed
qed

lemma field_schema:
  assumes "tbl_columns t = image_data_columns"
  shows "field t r ''id'' = cell r 0" "field t r ''image_name'' = cell r 1"
    "field t r ''title'' = cell r 2" "field t r ''buildings'' = cell r 3"
    "field t r ''description'' = cell r 4" "field t r ''time_added'' = cell r 5"
  by (simp_all add: field_def assms schema_find_col)

lemma stored_schema:
  "tbl_columns t = image_data_columns \<Longrightarrow>
   stored t n = length (filter (\<lambda>r. cell r 1 = SText n) (tbl_rows t))"
  by (simp add: stored_def field_schema)

text \<open>
  C1. When the name is already stored (once, as \<^verbatim>\<open>UNIQUE\<close> keeps it),
  \<^verbatim>\<open>insert_image_data\<close> with that name raises nothing, answers \<^verbatim>\<open>False\<close>, leaves
  the table as it is, so the name is still stored once, and shows one notice naming the
  image: the warning that the image exists already or the store error. It is the warning
  whenever sqlite3 can bind the three field values and the table has row ids left.
\<close>

theorem duplicate_insert_rejected:
  assumes d: "db w = Database (Some t)" and s: "tbl_columns t = image_data_columns"
    and p: "stored t n = 1"
  shows "\<exists>w'. insert_image_data env n title b dsc w = (Inr False, w')
           \<and> db w' = Database (Some t) \<and> stored t n = 1
           \<and> (page w' = page w @ [Warning (duplicate_warning n)]
                \<or> (\<exists>e. page w' = page w @ [Error (insert_error n e)]))
           \<and> (bindable title \<and> bindable b \<and> bindable dsc \<and> ids_left t
                \<longrightarrow> page w' = page w @ [Warning (duplicate_warning n)])"
proof -
  have "filter (\<lambda>r. cell r 1 = SText n) (tbl_rows t) \<noteq> []"
    using p by (auto simp add: stored_schema [OF s])
  then have e: "list_ex (\<lambda>r. cell r 1 = SText n) (tbl_rows t)"
    by (simp add: list_ex_iff filter_empty_conv)
  show ?thesis
    unfolding insert_cases [OF d s]
    using e d p by auto
qed

theorem duplicate_insert_rejected_witness:
  "stored (example_table [row_a] 1) ''a.jpg'' = 1 \<and>
   (\<exists>w'. insert_image_data (example_env (Inr PNone)) ''a.jpg'' (PStr ''New title'')
            (PStr ''Church'') PNone
            (example_world (Database (Some (example_table [row_a] 1)))) = (Inr False, w')
      \<and> db w' = Database (Some (example_table [row_a] 1))
      \<and> page w' = [Warning (duplicate_warning ''a.jpg'')])"
proof -
  let ?t = "example_table [row_a] 1"
  let ?w = "example_world (Database (Some ?t))"
  have s: "tbl_columns ?t = image_data_columns" by (simp add: example_table_def)
  have d: "db ?w = Database (Some ?t)" by (simp add: example_world_def)
  have p: "stored ?t ''a.jpg'' = 1"
    unfolding stored_schema [OF s] by (simp add: example_table_def row_a_def cell_def)
  have m: "max_rowid ?t = 1"
    by (simp add: max_rowid_def rowids_def example_table_def row_a_def image_data_columns_def)
  have i: "ids_left ?t" by (simp add: ids_left_def m) (simp add: example_table_def)
  have b: "bindable (PStr ''New title'')" "bindable (PStr ''Church'')" "bindable PNone"
    by (simp_all add: bindable_def)
  from duplicate_insert_rejected [OF d s p, of "example_env (Inr PNone)" "PStr ''New title''"
      "PStr ''Church''" PNone] b i
  show ?thesis using p by (auto simp add: example_world_def)
qed

theorem duplicate_with_list_title_counterexample:
  "stored (example_table [row_a] 1) ''a.jpg'' = 1 \<and>
   insert_image_data (example_env (Inr PNone)) ''a.jpg'' (PList [PStr ''New title''])
      (PStr ''Church'') PNone
      (example_world (Database (Some (example_table [row_a] 1)))) =
     (Inr False,
      (example_world (Database (Some (example_table [row_a] 1))))
        \<lparr>page := [Error (insert_error ''a.jpg''
                    (Exn ProgrammingError
                       (''Error binding parameter 2: type '' @ quoted ''list'' @
                        '' is not supported'')))]\<rparr>) \<and>
   Error (insert_error ''a.jpg''
            (Exn ProgrammingError
               (''Error binding parameter 2: type '' @ quoted ''list'' @ '' is not supported'')))
     \<noteq> Warning (duplicate_warning ''a.jpg'')"
proof -
  let ?t = "example_table [row_a] 1"
  let ?w = "example_world (Database (Some ?t))"
  have s: "tbl_columns ?t = image_data_columns" by (simp add: example_table_def)
  have d: "db ?w = Database (Some ?t)" by (simp add: example_world_def)
  have p: "stored ?t ''a.jpg'' = 1"
    unfolding stored_schema [OF s] by (simp add: example_table_def row_a_def cell_def)
  have n: "\<not> bindable (PList [PStr ''New title''])" by (simp add: bindable_def)
  have x: "str_int 2 = ''2''" by code_simp
  show ?thesis
    unfolding insert_cases [OF d s]
    using p n by (simp add: example_world_def x)
qed

lemma process_file_effect:
  assumes d: "db w = Database (Some t)" and s: "tbl_columns t = image_data_columns"
    and c: "chain_invoke env (length (requests w))
              (prompt (encode_image_from_bytes (file_bytes f))) = Inr (PDict kvs)"
  shows "db (snd (process_file env i f w)) = db w \<or>
         db (snd (process_file env i f w)) =
           Database (Some (t\<lparr>tbl_rows := tbl_rows t @ [new_row env w t (file_name f) kvs],
                              tbl_seq := next_id t\<rparr>))"
proof -
  have c': "chain_invoke env (length (requests w)) (prompt (b64encode (file_bytes f))) =
              Inr (PDict kvs)"
    using c by (simp add: encode_image_from_bytes_def)
  from process_file_db [OF d s, of env i f] show ?thesis
  proof
    assume "db (snd (process_file env i f w)) = db w"
    then show ?thesis by simp
  next
    assume "\<exists>kvs. chain_invoke env (length (requests w)) (prompt (b64encode (file_bytes f))) =
              Inr (PDict kvs) \<and>
            image_open env (drop (file_pos f) (file_bytes f)) = None \<and>
            filter (\<lambda>r. cell r 1 = SText (file_name f)) (tbl_rows t) = [] \<and>
            accepted env t kvs"
    with c' have o: "image_open env (drop (file_pos f) (file_bytes f)) = None"
      and n: "filter (\<lambda>r. cell r 1 = SText (file_name f)) (tbl_rows t) = []"
      and a: "accepted env t kvs"
      by auto
    show ?thesis
      unfolding process_file_persists [OF o d s n c' a] by simp
  qed
qed

lemma new_row_fields:
  assumes s: "tbl_columns t = image_data_columns"
  shows "field t (new_row env w t n kvs) ''id'' = SInt (next_id t)"
    "field t (new_row env w t n kvs) ''image_name'' = SText n"
    "field t (new_row env w t n kvs) ''title'' = stored_cell env (title_to_insert kvs)"
    "field t (new_row env w t n kvs) ''buildings'' = stored_cell env (buildings_to_insert env kvs)"
    "field t (new_row env w t n kvs) ''description'' =
       stored_cell env (description_to_insert env kvs)"
    "field t (new_row env w t n kvs) ''time_added'' =
       SText (current_timestamp env (Suc (statements w)))"
  by (simp_all add: field_schema [OF s] new_row_def cell_def)

lemma stored_cell_str: "stored_cell env (PStr x) = SText x"
  by (simp add: stored_cell_def bound_def apply_affinity_def)

text \<open>
  C2. When a key \<open>title\<close>, \<open>buildings\<close> or \<open>description\<close> is absent from the answer of
  the model, the row that the turn persists holds the sentinel default in that column:
  \<open>No title\<close>, \<open>No buildings identified\<close>, \<open>No description\<close>. A turn persists nothing or
  exactly the row \<open>new_row\<close>, and it persists that row when the image is displayed, its
  name is not yet stored and the store accepts the row.
\<close>

theorem missing_keys_get_defaults:
  assumes d: "db w = Database (Some t)" and s: "tbl_columns t = image_data_columns"
    and c: "chain_invoke env (length (requests w))
              (prompt (encode_image_from_bytes (file_bytes f))) = Inr (PDict kvs)"
  shows "(db (snd (process_file env i f w)) = db w \<or>
          db (snd (process_file env i f w)) =
            Database (Some (t\<lparr>tbl_rows := tbl_rows t @ [new_row env w t (file_name f) kvs],
                               tbl_seq := next_id t\<rparr>)))
       \<and> (map_of kvs ''title'' = None \<longrightarrow>
            field t (new_row env w t (file_name f) kvs) ''title'' = SText ''No title'')
       \<and> (map_of kvs ''buildings'' = None \<longrightarrow>
            field t (new_row env w t (file_name f) kvs) ''buildings'' =
              SText ''No buildings identified'')
       \<and> (map_of kvs ''description'' = None \<longrightarrow>
            field t (new_row env w t (file_name f) kvs) ''description'' =
              SText ''No description'')
       \<and> (image_open env (fst (file_read f)) = None \<and> stored t (file_name f) = 0 \<and>
            accepted env t kvs \<longrightarrow>
            db (snd (process_file env i f w)) =
              Database (Some (t\<lparr>tbl_rows := tbl_rows t @ [new_row env w t (file_name f) kvs],
                                 tbl_seq := next_id t\<rparr>)))"
proof -
  have c': "chain_invoke env (length (requests w)) (prompt (b64encode (file_bytes f))) =
              Inr (PDict kvs)"
    using c by (simp add: encode_image_from_bytes_def)
  have p: "image_open env (fst (file_read f)) = None \<and> stored t (file_name f) = 0 \<and>
            accepted env t kvs \<Longrightarrow>
            db (snd (process_file env i f w)) =
              Database (Some (t\<lparr>tbl_rows := tbl_rows t @ [new_row env w t (file_name f) kvs],
                                 tbl_seq := next_id t\<rparr>))"
  proof -
    assume a: "image_open env (fst (file_read f)) = None \<and> stored t (file_name f) = 0 \<and>
            accepted env t kvs"
    then have o: "image_open env (drop (file_pos f) (file_bytes f)) = None"
      by (simp add: file_read_def)
    have n: "filter (\<lambda>r. cell r 1 = SText (file_name f)) (tbl_rows t) = []"
      using a by (simp add: stored_schema [OF s])
    show ?thesis
      unfolding process_file_persists [OF o d s n c'] using a
      by (simp add: process_file_persists [OF o d s n c'])
  qed
  show ?thesis
    using process_file_effect [OF d s c] p
    by (simp add: new_row_fields [OF s] title_to_insert_def buildings_to_insert_def
        description_to_insert_def dict_get_def flatten_def stored_cell_str)
qed

lemma example_table_facts:
  "tbl_columns (example_table rows k) = image_data_columns"
  "tbl_rows (example_table rows k) = rows"
  "tbl_seq (example_table rows k) = k"
  by (simp_all add: example_table_def)

lemma example_world_facts:
  "db (example_world x) = x" "conns (example_world x) = []" "statements (example_world x) = 0"
  "page (example_world x) = []" "requests (example_world x) = []"
  by (simp_all add: example_world_def)

lemma example_env_facts:
  "chain_invoke (example_env a) n req = a"
  "current_timestamp (example_env a) n = ''2025-01-01 00:00:00''"
  "image_open (example_env a) bytes = None"
  "repr_str (example_env a) = quoted"
  "real_text (example_env a) = (\<lambda>r. r)"
  by (simp_all add: example_env_def)

lemma example_file_facts:
  "file_name (example_file n ty) = n" "file_type (example_file n ty) = ty"
  "file_bytes (example_file n ty) = [77, 97, 110]" "file_pos (example_file n ty) = 0"
  by (simp_all add: example_file_def)

lemma empty_table_ids: "max_rowid (example_table [] k) = 0" "ids_left (example_table [] 0)"
  "next_id (example_table [] 0) = 1"
  by (simp_all add: max_rowid_def rowids_def ids_left_def next_id_def example_table_def)

theorem missing_keys_get_defaults_witness:
  "chain_invoke (example_env (Inr (PDict [(''title'', PStr ''X'')])))
     (length (requests (example_world (Database (Some (example_table [] 0))))))
     (prompt (encode_image_from_bytes (file_bytes (example_file ''a.jpg'' ''image/jpeg'')))) =
     Inr (PDict [(''title'', PStr ''X'')]) \<and>
   db (snd (process_file (example_env (Inr (PDict [(''title'', PStr ''X'')]))) 0
              (example_file ''a.jpg'' ''image/jpeg'')
              (example_world (Database (Some (example_table [] 0)))))) =
     Database (Some (example_table
       [[SInt 1, SText ''a.jpg'', SText ''X'', SText ''No buildings identified'',
         SText ''No description'', SText ''2025-01-01 00:00:00'']] 1))"
proof -
  let ?kvs = "[(''title'', PStr ''X'')]"
  let ?env = "example_env (Inr (PDict ?kvs))"
  let ?f = "example_file ''a.jpg'' ''image/jpeg''"
  let ?t = "example_table [] 0"
  let ?w = "example_world (Database (Some ?t))"
  have d: "db ?w = Database (Some ?t)" and s: "tbl_columns ?t = image_data_columns"
    by (simp_all add: example_world_facts example_table_facts)
  have c: "chain_invoke ?env (length (requests ?w))
             (prompt (encode_image_from_bytes (file_bytes ?f))) = Inr (PDict ?kvs)"
    by (simp add: example_env_facts)
  have c': "chain_invoke ?env (length (requests ?w)) (prompt (b64encode (file_bytes ?f))) =
      Inr (PDict ?kvs)"
    by (simp add: example_env_facts)
  have o: "image_open ?env (drop (file_pos ?f) (file_bytes ?f)) = None"
    by (simp add: example_env_facts)
  have n: "filter (\<lambda>r. cell r 1 = SText (file_name ?f)) (tbl_rows ?t) = []"
    by (simp add: example_table_facts)
  have v: "title_to_insert ?kvs = PStr ''X''"
    "buildings_to_insert ?env ?kvs = PStr ''No buildings identified''"
    "description_to_insert ?env ?kvs = PStr ''No description''"
    by (simp_all add: title_to_insert_def buildings_to_insert_def description_to_insert_def
        dict_get_def flatten_def)
  have a: "accepted ?env ?t ?kvs"
    by (simp add: accepted_def v bindable_def stored_cell_str empty_table_ids)
  note th = missing_keys_get_defaults [OF d s c, of 0]
  have t: "field ?t (new_row ?env ?w ?t (file_name ?f) ?kvs) ''buildings'' =
             SText ''No buildings identified''"
    "field ?t (new_row ?env ?w ?t (file_name ?f) ?kvs) ''description'' = SText ''No description''"
    using th by simp_all
  have r: "new_row ?env ?w ?t (file_name ?f) ?kvs =
      [SInt 1, SText ''a.jpg'', SText ''X'', SText ''No buildings identified'',
       SText ''No description'', SText ''2025-01-01 00:00:00'']"
    using t unfolding new_row_fields [OF s]
    by (simp add: new_row_def v(1) stored_cell_str empty_table_ids example_env_facts
        example_file_facts)
  show ?thesis
    unfolding process_file_persists [OF o d s n c' a] r
    using c by (simp add: example_table_def empty_table_ids [unfolded example_table_def])
qed



text \<open>
  C4. When the existence check of a file's name answers true, the turn of that file shows
  the picture and the notice that it is already analysed, sends no request to the model
  and leaves the database as it is; the loop goes on with the next file.
\<close>

theorem existence_short_circuit:
  assumes "image_open env (fst (file_read uploaded_file)) = None"
    and "image_exists_in_db env (file_name uploaded_file)
           (snd (st_image (i mod 4) (file_name uploaded_file) w)) = (Inr True, w')"
  shows "process_file env i uploaded_file w =
           (Inr (), w'\<lparr>page := page w' @ [Info (already_analysed (file_name uploaded_file))]\<rparr>)
       \<and> requests w' = requests w \<and> db w' = db w
       \<and> page w' = page w @ [Picture (i mod 4) (file_name uploaded_file)]
       \<and> process_files env i (uploaded_file # rest) w =
           process_files env (Suc i) rest
             (w'\<lparr>page := page w' @ [Info (already_analysed (file_name uploaded_file))]\<rparr>)"
proof -
  have p: "process_file env i uploaded_file w =
      (Inr (), w'\<lparr>page := page w' @ [Info (already_analysed (file_name uploaded_file))]\<rparr>)"
    using assms
    by (simp add: process_file_def Let_def pil_image_open_def then_do_def st_info_def
        st_image_def render_def)
  have "requests w' = requests w \<and> db w' = db w
         \<and> page w' = page w @ [Picture (i mod 4) (file_name uploaded_file)]"
    using exists_frame [OF assms(2)] by (simp add: st_image_def render_def)
  with p show ?thesis by (simp add: then_do_def)
qed

theorem existence_short_circuit_witness:
  "image_open (example_env (Inr PNone)) (fst (file_read (example_file ''a.jpg'' ''image/jpeg''))) =
     None \<and>
   fst (image_exists_in_db (example_env (Inr PNone)) ''a.jpg''
          (snd (st_image 0 ''a.jpg''
                  (example_world (Database (Some (example_table [row_a] 1))))))) = Inr True \<and>
   process_file (example_env (Inr PNone)) 0 (example_file ''a.jpg'' ''image/jpeg'')
      (example_world (Database (Some (example_table [row_a] 1)))) =
     (Inr (),
      \<lparr>db = Database (Some (example_table [row_a] 1)), conns = [], statements = 1,
       page = [Picture 0 ''a.jpg'', Info (already_analysed ''a.jpg'')], requests = []\<rparr>)"
proof -
  let ?env = "example_env (Inr PNone)"
  let ?f = "example_file ''a.jpg'' ''image/jpeg''"
  let ?t = "example_table [row_a] 1"
  let ?w = "example_world (Database (Some ?t))"
  let ?w0 = "snd (st_image (0 mod 4) (file_name ?f) ?w)"
  have o: "image_open ?env (fst (file_read ?f)) = None" by (simp add: example_env_facts)
  have s: "tbl_columns ?t = image_data_columns" by (simp add: example_table_facts)
  have d: "db ?w0 = Database (Some ?t)"
    by (simp add: st_image_def render_def example_world_facts)
  have x: "image_exists_in_db ?env (file_name ?f) ?w0 =
      (Inr True, ?w0\<lparr>statements := Suc (statements ?w0)\<rparr>)"
    unfolding exists_ok [OF d s]
    by (simp add: example_table_facts example_file_facts row_a_def cell_def)
  from existence_short_circuit [OF o x] x o show ?thesis
    by (simp add: example_file_facts st_image_def render_def example_world_def)
qed

lemma setup_database_exists:
  assumes "db w = Database (Some t)"
  shows "setup_database w = (Inr (), w\<lparr>statements := Suc (statements w)\<rparr>)"
proof -
  let ?h = "new_handle (conns w)"
  let ?w1 = "w\<lparr>conns := conns w @ [(?h, NoTxn)]\<rparr>"
  have k: "keys_below ?h (conns w)" by (rule keys_below_new_handle)
  have v: "visible ?w1 ?h = Inr (Some t)"
    using visible_last [of ?w1 "conns w" ?h NoTxn "Some t"] k assms by simp
  have cm: "commit ?h (?w1\<lparr>statements := Suc (statements w)\<rparr>) =
      (Inr (), ?w1\<lparr>statements := Suc (statements w)\<rparr>)"
    using commit_last [of "?w1\<lparr>statements := Suc (statements w)\<rparr>" "conns w" ?h NoTxn] k
    by simp
  have cl: "close ?h (?w1\<lparr>statements := Suc (statements w)\<rparr>) =
      (Inr (), w\<lparr>statements := Suc (statements w)\<rparr>)"
    using close_last [of "?w1\<lparr>statements := Suc (statements w)\<rparr>" "conns w" ?h NoTxn] k
    by simp
  show ?thesis
    by (simp add: setup_database_def then_do_def connect_Database [OF assms]
        execute_create_table_def v cm cl)
qed

lemma setup_database_absent:
  assumes "db w = NoFile \<or> db w = Database None"
  shows "setup_database w =
     (Inr (), w\<lparr>db := Database (Some \<lparr>tbl_columns = image_data_columns, tbl_rows = [],
                                        tbl_seq = 0\<rparr>),
                statements := Suc (statements w)\<rparr>)"
proof -
  let ?h = "new_handle (conns w)"
  let ?t = "\<lparr>tbl_columns = image_data_columns, tbl_rows = [], tbl_seq = 0\<rparr>"
  let ?w1 = "w\<lparr>db := Database None, conns := conns w @ [(?h, NoTxn)]\<rparr>"
  have k: "keys_below ?h (conns w)" by (rule keys_below_new_handle)
  have c: "sqlite3_connect w = (Inr ?h, ?w1)"
    using assms by (auto simp add: sqlite3_connect_def)
  have v: "visible ?w1 ?h = Inr None"
    using visible_last [of ?w1 "conns w" ?h NoTxn None] k by simp
  have m: "map_of (conns ?w1) ?h = Some NoTxn"
    using keys_below_map_of [OF k] by simp
  have e: "execute_create_table ?h image_data_columns ?w1 =
      (Inr (), ?w1\<lparr>statements := Suc (statements w), db := Database (Some ?t)\<rparr>)"
    using m by (simp add: execute_create_table_def v Let_def del: map_of_append)
  have cm: "\<And>w'. conns w' = conns w @ [(?h, NoTxn)] \<Longrightarrow> commit ?h w' = (Inr (), w')"
    using commit_last [OF _ k] by fastforce
  have cl: "\<And>w'. conns w' = conns w @ [(?h, NoTxn)] \<Longrightarrow>
      close ?h w' = (Inr (), w'\<lparr>conns := conns w\<rparr>)"
    using close_last [OF _ k] by blast
  show ?thesis
    by (simp add: setup_database_def then_do_def c e cm cl)
qed

lemma setup_database_not_a_database:
  assumes "db w = NotADatabase"
  shows "setup_database w =
     (Inl (Exn DatabaseError ''file is not a database''),
      w\<lparr>conns := conns w @ [(new_handle (conns w), NoTxn)]\<rparr>)"
proof -
  let ?h = "new_handle (conns w)"
  let ?w1 = "w\<lparr>conns := conns w @ [(?h, NoTxn)]\<rparr>"
  have k: "keys_below ?h (conns w)" by (rule keys_below_new_handle)
  have c: "sqlite3_connect w = (Inr ?h, ?w1)"
    using assms by (simp add: sqlite3_connect_def)
  have m: "map_of (conns ?w1) ?h = Some NoTxn"
    using keys_below_map_of [OF k] by simp
  have v: "visible ?w1 ?h = Inl (Exn DatabaseError ''file is not a database'')"
    using m assms by (simp add: visible_def del: map_of_append)
  show ?thesis
    by (simp add: setup_database_def then_do_def c execute_create_table_def v)
qed

lemma exists_not_a_database:
  assumes "db w = NotADatabase"
  shows "image_exists_in_db env n w =
     (Inl (Exn DatabaseError ''file is not a database''),
      w\<lparr>conns := conns w @ [(new_handle (conns w), NoTxn)]\<rparr>)"
proof -
  let ?h = "new_handle (conns w)"
  let ?w1 = "w\<lparr>conns := conns w @ [(?h, NoTxn)]\<rparr>"
  have k: "keys_below ?h (conns w)" by (rule keys_below_new_handle)
  have c: "sqlite3_connect w = (Inr ?h, ?w1)"
    using assms by (simp add: sqlite3_connect_def)
  have m: "map_of (conns ?w1) ?h = Some NoTxn"
    using keys_below_map_of [OF k] by simp
  have v: "visible ?w1 ?h = Inl (Exn DatabaseError ''file is not a database'')"
    using m assms by (simp add: visible_def del: map_of_append)
  show ?thesis
    by (simp add: image_exists_in_db_def then_do_def c execute_select_count_def v)
qed

lemma insert_not_a_database:
  assumes "db w = NotADatabase"
  shows "insert_image_data env n title b dsc w =
     (Inr False,
      w\<lparr>page := page w @
          [Error (insert_error n (Exn DatabaseError ''file is not a database''))]\<rparr>)"
proof -
  let ?h = "new_handle (conns w)"
  let ?w1 = "w\<lparr>conns := conns w @ [(?h, NoTxn)]\<rparr>"
  have k: "keys_below ?h (conns w)" by (rule keys_below_new_handle)
  have c: "sqlite3_connect w = (Inr ?h, ?w1)"
    using assms by (simp add: sqlite3_connect_def)
  have m: "map_of (conns ?w1) ?h = Some NoTxn"
    using keys_below_map_of [OF k] by simp
  have v: "visible ?w1 ?h = Inl (Exn DatabaseError ''file is not a database'')"
    using m assms by (simp add: visible_def del: map_of_append)
  have cl: "\<And>w' s. conns w' = conns w @ [(?h, s)] \<Longrightarrow>
      close ?h w' = (Inr (), w'\<lparr>conns := conns w\<rparr>)"
    using close_last [OF _ k] by blast
  show ?thesis
    by (simp add: insert_image_data_def then_do_def try_finally_def try_except_def c
        execute_insert_def v cl st_error_def render_def ret_def)
qed

lemma setup_database_unopenable:
  assumes "db w = Unopenable"
  shows "setup_database w = (Inl (Exn OperationalError ''unable to open database file''), w)"
  using assms by (simp add: setup_database_def then_do_def sqlite3_connect_def)

text \<open>
  C7. \<^verbatim>\<open>setup_database\<close> is idempotent: run a second time it leaves the database file
  as the first run left it. When the table exists it raises nothing and changes neither
  the table nor its rows (only the count of statements run goes up); when the file or the
  table is absent it creates the empty table with the columns of the script:
  \<^verbatim>\<open>id\<close> an integer primary key with \<^verbatim>\<open>AUTOINCREMENT\<close>, \<^verbatim>\<open>image_name\<close> unique
  and not null, \<^verbatim>\<open>title\<close> not null, \<^verbatim>\<open>buildings\<close> and \<^verbatim>\<open>description\<close> nullable,
  \<^verbatim>\<open>time_added\<close> defaulting to the time of the insertion.
\<close>

theorem setup_database_idempotent:
  "db (snd (setup_database (snd (setup_database w)))) = db (snd (setup_database w))
   \<and> (\<forall>t. db w = Database (Some t) \<longrightarrow>
         setup_database w = (Inr (), w\<lparr>statements := Suc (statements w)\<rparr>))
   \<and> (db w = NoFile \<or> db w = Database None \<longrightarrow>
         setup_database w =
           (Inr (), w\<lparr>db := Database (Some \<lparr>tbl_columns = image_data_columns, tbl_rows = [],
                                              tbl_seq = 0\<rparr>),
                      statements := Suc (statements w)\<rparr>))
   \<and> map col_name image_data_columns =
         [''id'', ''image_name'', ''title'', ''buildings'', ''description'', ''time_added'']
   \<and> map col_type image_data_columns = [INTEGER, TEXT, TEXT, TEXT, TEXT, DATETIME]
   \<and> map col_primary_key_autoincrement image_data_columns =
         [True, False, False, False, False, False]
   \<and> map col_not_null image_data_columns = [False, True, True, False, False, False]
   \<and> map col_unique image_data_columns = [False, True, False, False, False, False]
   \<and> map col_default image_data_columns =
         [NoDefault, NoDefault, NoDefault, NoDefault, NoDefault, CURRENT_TIMESTAMP]"
proof -
  have i: "db (snd (setup_database (snd (setup_database w)))) = db (snd (setup_database w))"
  proof (cases "db w")
    case NoFile
    then show ?thesis
      by (simp add: setup_database_absent) (simp add: setup_database_exists)
  next
    case Unopenable
    then show ?thesis by (simp add: setup_database_unopenable)
  next
    case NotADatabase
    then show ?thesis by (simp add: setup_database_not_a_database)
  next
    case (Database x)
    show ?thesis
    proof (cases x)
      case None
      with Database show ?thesis
        by (simp add: setup_database_absent) (simp add: setup_database_exists)
    next
      case (Some t)
      with Database show ?thesis by (simp add: setup_database_exists)
    qed
  qed
  show ?thesis
    using i setup_database_exists [of w] setup_database_absent [of w]
    by (simp add: image_data_columns_def)
qed

theorem setup_database_idempotent_witness:
  "db (example_world (Database (Some (example_table [row_a] 1)))) =
     Database (Some (example_table [row_a] 1)) \<and>
   setup_database (example_world (Database (Some (example_table [row_a] 1)))) =
     (Inr (), \<lparr>db = Database (Some (example_table [row_a] 1)), conns = [], statements = 1,
                page = [], requests = []\<rparr>) \<and>
   db (example_world NoFile) = NoFile \<and>
   setup_database (example_world NoFile) =
     (Inr (), \<lparr>db = Database (Some (example_table [] 0)), conns = [], statements = 1,
                page = [], requests = []\<rparr>) \<and>
   setup_database (snd (setup_database (example_world NoFile))) =
     (Inr (), \<lparr>db = Database (Some (example_table [] 0)), conns = [], statements = 2,
                page = [], requests = []\<rparr>)"
proof -
  note a = setup_database_idempotent [of "example_world (Database (Some (example_table [row_a] 1)))"]
  note b = setup_database_idempotent [of "example_world NoFile"]
  note c = setup_database_idempotent [of "snd (setup_database (example_world NoFile))"]
  have 1: "setup_database (example_world (Database (Some (example_table [row_a] 1)))) =
     (Inr (), \<lparr>db = Database (Some (example_table [row_a] 1)), conns = [], statements = 1,
                page = [], requests = []\<rparr>)"
    using a by (simp add: example_world_def)
  have 2: "setup_database (example_world NoFile) =
     (Inr (), \<lparr>db = Database (Some (example_table [] 0)), conns = [], statements = 1,
                page = [], requests = []\<rparr>)"
    using b by (simp add: example_world_def example_table_def)
  have 3: "setup_database (snd (setup_database (example_world NoFile))) =
     (Inr (), \<lparr>db = Database (Some (example_table [] 0)), conns = [], statements = 2,
                page = [], requests = []\<rparr>)"
    using c unfolding 2 by simp
  show ?thesis using 1 2 3 by (simp add: example_world_def)
qed

lemma set_txn_conns:
  "conns w = cs @ [(h, s)] \<Longrightarrow> keys_below h cs \<Longrightarrow>
   conns (set_txn h s' w) = cs @ [(h, s')]"
  by (simp add: set_txn_last)

lemma execute_insert_conns:
  assumes c: "conns w = cs @ [(h, s)]" and k: "keys_below h cs"
  shows "\<exists>s'. conns (snd (execute_insert env h ps w)) = cs @ [(h, s')]"
proof -
  have 1: "\<And>x. conns (set_txn h x w) = cs @ [(h, x)]"
    using set_txn_conns [OF c k] by simp
  have 2: "\<And>x y. conns (set_txn h y ((set_txn h x w)\<lparr>statements := Suc (statements (set_txn h x w))\<rparr>)) =
      cs @ [(h, y)]"
    using set_txn_conns [of "(set_txn h x w)\<lparr>statements := Suc (statements (set_txn h x w))\<rparr>" cs h x for x]
      1 k by simp
  show ?thesis
    using c 1 2
    by (auto simp add: execute_insert_def Let_def
        split: sum.splits option.splits simp del: bind_parameters.simps)
qed

lemma commit_conns:
  assumes c: "conns w = cs @ [(h, s)]" and k: "keys_below h cs"
  shows "\<exists>s'. conns (snd (commit h w)) = cs @ [(h, s')]"
  unfolding commit_last [OF c k] using c by (cases s) simp_all

lemma insert_closes_connection:
  "conns (snd (insert_image_data env n title b dsc w)) = conns w"
proof (cases "db w = Unopenable")
  case True
  then show ?thesis
    by (simp add: insert_image_data_def then_do_def sqlite3_connect_def)
next
  case False
  let ?h = "new_handle (conns w)"
  let ?w1 = "w\<lparr>db := (if db w = NoFile then Database None else db w),
               conns := conns w @ [(?h, NoTxn)]\<rparr>"
  let ?ps = "[PStr n, title, b, dsc]"
  have k: "keys_below ?h (conns w)" by (rule keys_below_new_handle)
  have c: "sqlite3_connect w = (Inr ?h, ?w1)"
    using False by (cases "db w") (simp_all add: sqlite3_connect_def)
  have c1: "conns ?w1 = conns w @ [(?h, NoTxn)]" by simp
  obtain r w2 where e: "execute_insert env ?h ?ps ?w1 = (r, w2)"
    by (cases "execute_insert env ?h ?ps ?w1")
  from execute_insert_conns [OF c1 k, of env ?ps] e
  obtain s2 where c2: "conns w2 = conns w @ [(?h, s2)]" by auto
  obtain r3 w3 where m: "commit ?h w2 = (r3, w3)" by (cases "commit ?h w2")
  from commit_conns [OF c2 k] m obtain s3 where c3: "conns w3 = conns w @ [(?h, s3)]" by auto
  have cl: "\<And>w' s. conns w' = conns w @ [(?h, s)] \<Longrightarrow>
      close ?h w' = (Inr (), w'\<lparr>conns := conns w\<rparr>)"
    using close_last [OF _ k] by blast
  show ?thesis
    unfolding insert_image_data_def
    using c2 c3
    by (simp add: then_do_def try_finally_def try_except_def c e m cl st_warning_def
        st_error_def render_def ret_def split: sum.splits)
qed

text \<open>
  C6. When the file is not a database, \<^verbatim>\<open>setup_database\<close> and
  \<^verbatim>\<open>image_exists_in_db\<close> raise from \<^verbatim>\<open>execute\<close> and leave the connection they
  opened among the open connections; \<^verbatim>\<open>insert_image_data\<close>, whose \<^verbatim>\<open>finally\<close>
  closes it, leaves the open connections as they were, in every world.
\<close>

theorem connection_left_open_on_error:
  "setup_database \<lparr>db = NotADatabase, conns = cs, statements = k, page = p, requests = q\<rparr> =
     (Inl (Exn DatabaseError ''file is not a database''),
      \<lparr>db = NotADatabase, conns = cs @ [(new_handle cs, NoTxn)], statements = k, page = p,
       requests = q\<rparr>)
   \<and> image_exists_in_db env image_name
       \<lparr>db = NotADatabase, conns = cs, statements = k, page = p, requests = q\<rparr> =
     (Inl (Exn DatabaseError ''file is not a database''),
      \<lparr>db = NotADatabase, conns = cs @ [(new_handle cs, NoTxn)], statements = k, page = p,
       requests = q\<rparr>)
   \<and> conns (snd (insert_image_data env image_name title buildings description w)) = conns w"
proof -
  let ?w = "\<lparr>db = NotADatabase, conns = cs, statements = k, page = p, requests = q\<rparr>"
  have f: "db ?w = NotADatabase" by simp
  have 1: "setup_database ?w =
      (Inl (Exn DatabaseError ''file is not a database''),
       ?w\<lparr>conns := conns ?w @ [(new_handle (conns ?w), NoTxn)]\<rparr>)"
    by (rule setup_database_not_a_database [OF f])
  have 2: "image_exists_in_db env image_name ?w =
      (Inl (Exn DatabaseError ''file is not a database''),
       ?w\<lparr>conns := conns ?w @ [(new_handle (conns ?w), NoTxn)]\<rparr>)"
    by (rule exists_not_a_database [OF f])
  have 3: "conns (snd (insert_image_data env image_name title buildings description w)) =
      conns w"
    by (rule insert_closes_connection)
  from 1 2 3 show ?thesis by simp
qed

lemma rowids_append:
  assumes s: "tbl_columns t = image_data_columns"
  shows "rowids (t\<lparr>tbl_rows := tbl_rows t @ [new_row env w t n kvs], tbl_seq := k\<rparr>) =
           rowids t @ [next_id t]"
  by (simp add: rowids_def s new_row_def image_data_columns_def split: sqlval.splits)

lemma next_id_above: "tbl_seq t < next_id t"
  by (simp add: next_id_def)

lemma process_file_store:
  assumes d: "db w = Database (Some t)" and s: "tbl_columns t = image_data_columns"
  shows "db (snd (process_file env i f w)) = Database (Some t) \<or>
     (\<exists>kvs. db (snd (process_file env i f w)) =
        Database (Some (t\<lparr>tbl_rows := tbl_rows t @ [new_row env w t (file_name f) kvs],
                           tbl_seq := next_id t\<rparr>)))"
proof -
  from process_file_db [OF d s, of env i f] show ?thesis
  proof
    assume "db (snd (process_file env i f w)) = db w"
    then show ?thesis using d by simp
  next
    assume "\<exists>kvs. chain_invoke env (length (requests w)) (prompt (b64encode (file_bytes f))) =
              Inr (PDict kvs) \<and>
            image_open env (drop (file_pos f) (file_bytes f)) = None \<and>
            filter (\<lambda>r. cell r 1 = SText (file_name f)) (tbl_rows t) = [] \<and>
            accepted env t kvs"
    then obtain kvs where
      c: "chain_invoke env (length (requests w)) (prompt (b64encode (file_bytes f))) =
              Inr (PDict kvs)"
      and o: "image_open env (drop (file_pos f) (file_bytes f)) = None"
      and n: "filter (\<lambda>r. cell r 1 = SText (file_name f)) (tbl_rows t) = []"
      and a: "accepted env t kvs"
      by auto
    show ?thesis
      unfolding process_file_persists [OF o d s n c a] by auto
  qed
qed

lemma process_file_ids:
  assumes d: "db w = Database (Some t)" and s: "tbl_columns t = image_data_columns"
    and k: "ids_ok t"
  shows "\<exists>t' new. db (snd (process_file env i f w)) = Database (Some t')
           \<and> tbl_columns t' = image_data_columns \<and> ids_ok t'
           \<and> rowids t' = rowids t @ new \<and> list_all (\<lambda>j. tbl_seq t < j) new
           \<and> tbl_seq t \<le> tbl_seq t'"
proof -
  from process_file_store [OF d s, of env i f] show ?thesis
  proof
    assume "db (snd (process_file env i f w)) = Database (Some t)"
    then show ?thesis using s k by (intro exI [of _ t] exI [of _ "[]"]) simp
  next
    assume "\<exists>kvs. db (snd (process_file env i f w)) =
        Database (Some (t\<lparr>tbl_rows := tbl_rows t @ [new_row env w t (file_name f) kvs],
                           tbl_seq := next_id t\<rparr>))"
    then obtain kvs where p: "db (snd (process_file env i f w)) =
        Database (Some (t\<lparr>tbl_rows := tbl_rows t @ [new_row env w t (file_name f) kvs],
                           tbl_seq := next_id t\<rparr>))" ..
    let ?t' = "t\<lparr>tbl_rows := tbl_rows t @ [new_row env w t (file_name f) kvs],
                 tbl_seq := next_id t\<rparr>"
    have r: "rowids ?t' = rowids t @ [next_id t]" by (rule rowids_append [OF s])
    have b: "\<forall>x\<in>set (rowids t). x < next_id t"
      using k next_id_above [of t] by (force simp add: ids_ok_def list_all_iff)
    have "ids_ok ?t'"
      using k b unfolding ids_ok_def r
      by (auto simp add: sorted_wrt_append list_all_iff intro: less_imp_le)
    then show ?thesis
      using p s r next_id_above [of t]
      by (intro exI [of _ ?t'] exI [of _ "[next_id t]"]) simp
  qed
qed

lemma rowids_append_row:
  assumes s: "tbl_columns t = image_data_columns"
  shows "rowids (t\<lparr>tbl_rows := tbl_rows t @ [[SInt j, c1, c2, c3, c4, c5]], tbl_seq := k\<rparr>) =
           rowids t @ [j]"
  by (simp add: rowids_def s image_data_columns_def split: sqlval.splits)

lemma ids_ok_append:
  assumes s: "tbl_columns t = image_data_columns" and k: "ids_ok t"
  shows "ids_ok (t\<lparr>tbl_rows := tbl_rows t @ [[SInt (next_id t), c1, c2, c3, c4, c5]],
                  tbl_seq := next_id t\<rparr>)"
proof -
  have b: "\<forall>x\<in>set (rowids t). x < next_id t"
    using k next_id_above [of t] by (force simp add: ids_ok_def list_all_iff)
  show ?thesis
    using k b unfolding ids_ok_def rowids_append_row [OF s]
    by (auto simp add: sorted_wrt_append list_all_iff intro: less_imp_le)
qed

lemma insert_ids:
  assumes d: "db w = Database (Some t)" and s: "tbl_columns t = image_data_columns"
    and k: "ids_ok t" and i: "insert_image_data env n title b dsc w = (Inr True, w')"
  shows "\<exists>t'. db w' = Database (Some t') \<and> tbl_columns t' = image_data_columns
           \<and> rowids t' = rowids t @ [next_id t] \<and> tbl_seq t' = next_id t
           \<and> tbl_seq t < next_id t \<and> ids_ok t'"
proof -
  let ?t' = "t\<lparr>tbl_rows := tbl_rows t @
                         [[SInt (next_id t), SText n, stored_cell env title, stored_cell env b,
                           stored_cell env dsc, SText (current_timestamp env (statements w))]],
                       tbl_seq := next_id t\<rparr>"
  have "db w' = Database (Some ?t')"
    using i unfolding insert_cases [OF d s] by (auto split: if_splits)
  then show ?thesis
    using rowids_append_row [OF s] ids_ok_append [OF s k] next_id_above [of t] s
    by (intro exI [of _ ?t']) simp
qed

text \<open>
  C9. The ids are assigned by the store. Every successful \<^verbatim>\<open>insert_image_data\<close> gives
  the new row an id larger than the largest id ever assigned before it (the sequence of
  the table), and makes it the new sequence. So over every run of the loop the ids of the
  rows stay strictly increasing in the order of insertion, the sequence never goes down,
  and no id is used twice.
\<close>

theorem ids_strictly_increasing:
  assumes d: "db w = Database (Some t)" and s: "tbl_columns t = image_data_columns"
    and k: "ids_ok t"
  shows "(\<exists>t' new. db (snd (process_files env i files w)) = Database (Some t')
           \<and> tbl_columns t' = image_data_columns
           \<and> rowids t' = rowids t @ new
           \<and> sorted_wrt (<) (rowids t')
           \<and> list_all (\<lambda>j. tbl_seq t < j) new
           \<and> list_all (\<lambda>j. j \<le> tbl_seq t') (rowids t')
           \<and> tbl_seq t \<le> tbl_seq t')
       \<and> (\<forall>w'. insert_image_data env n title b dsc w = (Inr True, w') \<longrightarrow>
           (\<exists>t'. db w' = Database (Some t') \<and> tbl_columns t' = image_data_columns
              \<and> rowids t' = rowids t @ [next_id t] \<and> tbl_seq t' = next_id t
              \<and> tbl_seq t < next_id t \<and> ids_ok t'))"
proof
  show "\<exists>t' new. db (snd (process_files env i files w)) = Database (Some t')
           \<and> tbl_columns t' = image_data_columns
           \<and> rowids t' = rowids t @ new
           \<and> sorted_wrt (<) (rowids t')
           \<and> list_all (\<lambda>j. tbl_seq t < j) new
           \<and> list_all (\<lambda>j. j \<le> tbl_seq t') (rowids t')
           \<and> tbl_seq t \<le> tbl_seq t'"
    using d s k
  proof (induction files arbitrary: w t i)
    case Nil
    then show ?case
      by (intro exI [of _ t] exI [of _ "[]"]) (simp add: ret_def ids_ok_def)
  next
    case (Cons f files)
    from process_file_ids [OF Cons.prems, of env i f]
    obtain t1 new1 where 1: "db (snd (process_file env i f w)) = Database (Some t1)"
      and s1: "tbl_columns t1 = image_data_columns" and k1: "ids_ok t1"
      and r1: "rowids t1 = rowids t @ new1" and n1: "list_all (\<lambda>j. tbl_seq t < j) new1"
      and q1: "tbl_seq t \<le> tbl_seq t1"
      by blast
    obtain r w1 where p: "process_file env i f w = (r, w1)" by (cases "process_file env i f w")
    with 1 have d1: "db w1 = Database (Some t1)" by simp
    show ?case
    proof (cases r)
      case (Inl e)
      then have "process_files env i (f # files) w = (Inl e, w1)"
        by (simp add: then_do_def p)
      then show ?thesis
        using d1 s1 k1 r1 n1 q1
        by (intro exI [of _ t1] exI [of _ new1]) (simp add: ids_ok_def)
    next
      case (Inr u)
      then have e: "process_files env i (f # files) w = process_files env (Suc i) files w1"
        by (simp add: then_do_def p)
      from Cons.IH [OF d1 s1 k1, of "Suc i"]
      obtain t2 new2 where 2: "db (snd (process_files env (Suc i) files w1)) = Database (Some t2)"
        and s2: "tbl_columns t2 = image_data_columns"
        and r2: "rowids t2 = rowids t1 @ new2" and o2: "sorted_wrt (<) (rowids t2)"
        and n2: "list_all (\<lambda>j. tbl_seq t1 < j) new2"
        and b2: "list_all (\<lambda>j. j \<le> tbl_seq t2) (rowids t2)"
        and q2: "tbl_seq t1 \<le> tbl_seq t2"
        by blast
      have "list_all (\<lambda>j. tbl_seq t < j) (new1 @ new2)"
        using n1 n2 q1 by (auto simp add: list_all_iff)
      then show ?thesis
        unfolding e using 2 s2 r2 r1 o2 b2 q1 q2
        by (intro exI [of _ t2] exI [of _ "new1 @ new2"]) simp
    qed
  qed
next
  show "\<forall>w'. insert_image_data env n title b dsc w = (Inr True, w') \<longrightarrow>
           (\<exists>t'. db w' = Database (Some t') \<and> tbl_columns t' = image_data_columns
              \<and> rowids t' = rowids t @ [next_id t] \<and> tbl_seq t' = next_id t
              \<and> tbl_seq t < next_id t \<and> ids_ok t')"
    using insert_ids [OF d s k, of env n title b dsc] by blast
qed

lemma process_files_two:
  "process_file env i f w = (Inr (), w1) \<Longrightarrow>
   snd (process_files env i [f, g] w) = snd (process_file env (Suc i) g w1)"
  by (simp add: then_do_def ret_def split: prod.splits sum.splits)

theorem ids_strictly_increasing_witness:
  "db (example_world (Database (Some (example_table [] 0)))) =
     Database (Some (example_table [] 0)) \<and>
   tbl_columns (example_table [] 0) = image_data_columns \<and> ids_ok (example_table [] 0) \<and>
   db (snd (process_files (example_env (Inr (PDict [(''title'', PStr ''X'')]))) 0
              [example_file ''a.jpg'' ''image/jpeg'', example_file ''b.jpg'' ''image/jpeg'']
              (example_world (Database (Some (example_table [] 0)))))) =
     Database (Some (example_table
       [[SInt 1, SText ''a.jpg'', SText ''X'', SText ''No buildings identified'',
         SText ''No description'', SText ''2025-01-01 00:00:00''],
        [SInt 2, SText ''b.jpg'', SText ''X'', SText ''No buildings identified'',
         SText ''No description'', SText ''2025-01-01 00:00:00'']] 2)) \<and>
   rowids (example_table
       [[SInt 1, SText ''a.jpg'', SText ''X'', SText ''No buildings identified'',
         SText ''No description'', SText ''2025-01-01 00:00:00''],
        [SInt 2, SText ''b.jpg'', SText ''X'', SText ''No buildings identified'',
         SText ''No description'', SText ''2025-01-01 00:00:00'']] 2) = [1, 2]"
proof -
  let ?kvs = "[(''title'', PStr ''X'')]"
  let ?env = "example_env (Inr (PDict ?kvs))"
  let ?fa = "example_file ''a.jpg'' ''image/jpeg''"
  let ?fb = "example_file ''b.jpg'' ''image/jpeg''"
  let ?t = "example_table [] 0"
  let ?w = "example_world (Database (Some ?t))"
  let ?ra = "[SInt 1, SText ''a.jpg'', SText ''X'', SText ''No buildings identified'',
         SText ''No description'', SText ''2025-01-01 00:00:00'']"
  let ?rb = "[SInt 2, SText ''b.jpg'', SText ''X'', SText ''No buildings identified'',
         SText ''No description'', SText ''2025-01-01 00:00:00'']"
  let ?t1 = "example_table [?ra] 1"
  let ?t2 = "example_table [?ra, ?rb] 2"
  have d: "db ?w = Database (Some ?t)" and s: "tbl_columns ?t = image_data_columns"
    by (simp_all add: example_world_facts example_table_facts)
  have k: "ids_ok ?t" by (simp add: ids_ok_def rowids_def example_table_def)
  have v: "title_to_insert ?kvs = PStr ''X''"
    "buildings_to_insert ?env ?kvs = PStr ''No buildings identified''"
    "description_to_insert ?env ?kvs = PStr ''No description''"
    by (simp_all add: title_to_insert_def buildings_to_insert_def description_to_insert_def
        dict_get_def flatten_def)
  have c: "\<And>w f. chain_invoke ?env (length (requests w)) (prompt (b64encode (file_bytes f))) =
      Inr (PDict ?kvs)"
    by (simp add: example_env_facts)
  have o: "\<And>f. image_open ?env (drop (file_pos f) (file_bytes f)) = None"
    by (simp add: example_env_facts)
  have a: "accepted ?env ?t ?kvs"
    by (simp add: accepted_def v bindable_def stored_cell_str empty_table_ids)
  have n: "filter (\<lambda>r. cell r 1 = SText (file_name ?fa)) (tbl_rows ?t) = []"
    by (simp add: example_table_facts)
  have ra: "new_row ?env ?w ?t (file_name ?fa) ?kvs = ?ra"
    by (simp add: new_row_def v stored_cell_str empty_table_ids example_env_facts
        example_file_facts)
  have ta: "?t\<lparr>tbl_rows := tbl_rows ?t @ [?ra], tbl_seq := next_id ?t\<rparr> = ?t1"
    by (simp add: empty_table_ids) (simp add: example_table_def)
  let ?w1 = "?w\<lparr>db := Database (Some ?t1), statements := Suc (Suc (statements ?w)),
        page := page ?w @ [Picture (0 mod 4) (file_name ?fa), Spinner (analysing (file_name ?fa))],
        requests := requests ?w @ [prompt (b64encode (file_bytes ?fa))]\<rparr>"
  have pa: "process_file ?env 0 ?fa ?w = (Inr (), ?w1)"
    unfolding process_file_persists [OF o d s n c a] ra ta by simp
  have d1: "db ?w1 = Database (Some ?t1)" and s1: "tbl_columns ?t1 = image_data_columns"
    by (simp_all add: example_table_facts)
  have m1: "max_rowid ?t1 = 1"
    by (simp add: max_rowid_def rowids_def example_table_def image_data_columns_def)
  have i1: "ids_left ?t1" "next_id ?t1 = 2"
    by (simp_all add: ids_left_def next_id_def m1 example_table_facts)
  have a1: "accepted ?env ?t1 ?kvs"
    by (simp add: accepted_def v bindable_def stored_cell_str i1)
  have n1: "filter (\<lambda>r. cell r 1 = SText (file_name ?fb)) (tbl_rows ?t1) = []"
    by (simp add: example_table_facts example_file_facts cell_def)
  have rb: "new_row ?env ?w1 ?t1 (file_name ?fb) ?kvs = ?rb"
    by (simp add: new_row_def v stored_cell_str i1 example_env_facts example_file_facts)
  have tb: "?t1\<lparr>tbl_rows := tbl_rows ?t1 @ [?rb], tbl_seq := next_id ?t1\<rparr> = ?t2"
    by (simp add: i1) (simp add: example_table_def)
  have pb: "db (snd (process_file ?env (Suc 0) ?fb ?w1)) = Database (Some ?t2)"
    unfolding process_file_persists [OF o d1 s1 n1 c a1] rb tb by simp
  have ps: "db (snd (process_files ?env 0 [?fa, ?fb] ?w)) = Database (Some ?t2)"
    unfolding process_files_two [OF pa] by (rule pb)
  have r2: "rowids ?t2 = [1, 2]"
    by (simp add: rowids_def example_table_def image_data_columns_def)
  from ids_strictly_increasing [OF d s k, of ?env 0 "[?fa, ?fb]"] ps r2 d s k
  show ?thesis by simp
qed

lemma not_stored:
  assumes "tbl_columns t = image_data_columns" and "stored t n = 0"
  shows "filter (\<lambda>r. cell r 1 = SText n) (tbl_rows t) = []"
  using assms by (simp add: stored_schema)






lemma insert_requests:
  assumes "db w = Database (Some t)" and "tbl_columns t = image_data_columns"
  shows "requests (snd (insert_image_data env n title b dsc w)) = requests w"
  unfolding insert_cases [OF assms] by simp

lemma process_file_requests:
  assumes o: "image_open env (drop (file_pos f) (file_bytes f)) = None"
    and d: "db w = Database (Some t)" and s: "tbl_columns t = image_data_columns"
    and n: "filter (\<lambda>r. cell r 1 = SText (file_name f)) (tbl_rows t) = []"
  shows "requests (snd (process_file env i f w)) =
           requests w @ [prompt (b64encode (file_bytes f))]"
proof -
  let ?w2 = "w\<lparr>statements := Suc (statements w),
                page := page w @ [Picture (i mod 4) (file_name f),
                                  Spinner (analysing (file_name f))],
                requests := requests w @ [prompt (b64encode (file_bytes f))]\<rparr>"
  have d2: "db ?w2 = Database (Some t)" using d by simp
  have "\<And>a b c. requests (snd (insert_image_data env (file_name f) a b c ?w2)) = requests ?w2"
    by (rule insert_requests [OF d2 s])
  then show ?thesis
    unfolding process_file_new [OF o d s n]
    by (simp add: Let_def split: sum.splits)
qed

text \<open>
  C8. For every uploaded file that is displayed and whose name is not yet stored, the
  turn sends exactly one request: the fixed system instruction, and one human turn with
  the fixed text \<open>Describe the image.\<close> and the base64 of all bytes of the file in a data
  URL tagged \<^verbatim>\<open>image/jpeg\<close>, whatever the type of the file. For a file whose name
  is stored the turn sends no request.
\<close>

theorem one_jpeg_request_per_new_image:
  assumes o: "image_open env (fst (file_read f)) = None"
    and d: "db w = Database (Some t)" and s: "tbl_columns t = image_data_columns"
  shows "(stored t (file_name f) = 0 \<longrightarrow>
            requests (snd (process_file env i f w)) =
              requests w @
              [\<lparr>system_message = system_instruction, human_text = ''Describe the image.'',
                image_url = ''data:image/jpeg;base64,'' @
                            encode_image_from_bytes (file_bytes f)\<rparr>])
       \<and> (0 < stored t (file_name f) \<longrightarrow>
            requests (snd (process_file env i f w)) = requests w)"
proof -
  have o': "image_open env (drop (file_pos f) (file_bytes f)) = None"
    using o by (simp add: file_read_def)
  have 1: "stored t (file_name f) = 0 \<Longrightarrow>
      requests (snd (process_file env i f w)) =
        requests w @ [prompt (b64encode (file_bytes f))]"
    using process_file_requests [OF o' d s not_stored [OF s]] by simp
  have 2: "0 < stored t (file_name f) \<Longrightarrow>
      requests (snd (process_file env i f w)) = requests w"
    unfolding process_file_checked [OF o' d s] stored_schema [OF s]
    by (simp add: Let_def)
  show ?thesis
    using 1 2 by (simp add: prompt_def encode_image_from_bytes_def)
qed

theorem one_jpeg_request_per_new_image_witness:
  "image_open (example_env (Inr PNone)) (fst (file_read (example_file ''b.jpg'' ''image/jpeg''))) =
     None \<and>
   stored (example_table [row_a] 1) ''b.jpg'' = 0 \<and>
   requests (snd (process_file (example_env (Inr PNone)) 0
                    (example_file ''b.jpg'' ''image/jpeg'')
                    (example_world (Database (Some (example_table [row_a] 1)))))) =
     [\<lparr>system_message = system_instruction, human_text = ''Describe the image.'',
       image_url = ''data:image/jpeg;base64,TWFu''\<rparr>] \<and>
   0 < stored (example_table [row_a] 1) ''a.jpg'' \<and>
   requests (snd (process_file (example_env (Inr PNone)) 0
                    (example_file ''a.jpg'' ''image/jpeg'')
                    (example_world (Database (Some (example_table [row_a] 1)))))) = []"
proof -
  let ?env = "example_env (Inr PNone)"
  let ?t = "example_table [row_a] 1"
  let ?w = "example_world (Database (Some ?t))"
  have o: "\<And>f. image_open ?env (fst (file_read f)) = None" by (simp add: example_env_facts)
  have d: "db ?w = Database (Some ?t)" and s: "tbl_columns ?t = image_data_columns"
    by (simp_all add: example_world_facts example_table_facts)
  have na: "stored ?t ''a.jpg'' = 1" and nb: "stored ?t ''b.jpg'' = 0"
    unfolding stored_schema [OF s]
    by (simp_all add: example_table_facts row_a_def cell_def)
  have b: "encode_image_from_bytes [77, 97, 110] = ''TWFu''"
    by (simp add: encode_image_from_bytes_def b64char_def)
  from one_jpeg_request_per_new_image [OF o d s, of "example_file ''a.jpg'' ''image/jpeg''" 0]
    one_jpeg_request_per_new_image [OF o d s, of "example_file ''b.jpg'' ''image/jpeg''" 0]
    na nb o
  show ?thesis by (simp add: example_file_facts b example_world_facts)
qed

theorem png_is_tagged_jpeg_counterexample:
  "file_type (example_file ''a.png'' ''image/png'') = ''image/png'' \<and>
   requests (snd (process_file (example_env (Inr PNone)) 0
                    (example_file ''a.png'' ''image/png'')
                    (example_world (Database (Some (example_table [] 0)))))) =
     [\<lparr>system_message = system_instruction, human_text = ''Describe the image.'',
       image_url = ''data:image/jpeg;base64,TWFu''\<rparr>] \<and>
   ''data:image/jpeg;base64,TWFu'' \<noteq> ''data:image/png;base64,TWFu''"
proof -
  let ?env = "example_env (Inr PNone)"
  let ?f = "example_file ''a.png'' ''image/png''"
  let ?t = "example_table [] 0"
  let ?w = "example_world (Database (Some ?t))"
  have o: "image_open ?env (drop (file_pos ?f) (file_bytes ?f)) = None"
    by (simp add: example_env_facts)
  have d: "db ?w = Database (Some ?t)" and s: "tbl_columns ?t = image_data_columns"
    by (simp_all add: example_world_facts example_table_facts)
  have n: "filter (\<lambda>r. cell r 1 = SText (file_name ?f)) (tbl_rows ?t) = []"
    by (simp add: example_table_facts)
  show ?thesis
    unfolding process_file_requests [OF o d s n]
    by (simp add: example_file_facts example_world_facts prompt_def b64char_def)
qed

lemma process_file_returns:
  assumes o: "image_open env (drop (file_pos f) (file_bytes f)) = None"
    and d: "db w = Database (Some t)" and s: "tbl_columns t = image_data_columns"
  shows "fst (process_file env i f w) = Inr ()"
proof (cases "filter (\<lambda>r. cell r 1 = SText (file_name f)) (tbl_rows t) = []")
  case True
  show ?thesis
    unfolding process_file_new [OF o d s True]
    by (simp add: Let_def split: sum.splits)
next
  case False
  then show ?thesis
    unfolding process_file_checked [OF o d s] by (simp add: Let_def)
qed

lemma process_file_keeps_table:
  assumes d: "db w = Database (Some t)" and s: "tbl_columns t = image_data_columns"
  shows "\<exists>t'. db (snd (process_file env i f w)) = Database (Some t') \<and>
              tbl_columns t' = image_data_columns"
  using process_file_store [OF d s, of env i f] s by auto

text \<open>
  Batch isolation: when every file of the batch can be displayed, the loop runs to its
  end whatever the model answers and whatever the store does with the rows.
\<close>

lemma batch_never_aborts:
  assumes "db w = Database (Some t)" and "tbl_columns t = image_data_columns"
    and "\<forall>f\<in>set files. image_open env (fst (file_read f)) = None"
  shows "fst (process_files env i files w) = Inr ()"
  using assms
proof (induction files arbitrary: w t i)
  case Nil
  then show ?case by (simp add: ret_def)
next
  case (Cons f files)
  have o: "image_open env (drop (file_pos f) (file_bytes f)) = None"
    using Cons.prems(3) by (simp add: file_read_def)
  obtain r w1 where p: "process_file env i f w = (r, w1)" by (cases "process_file env i f w")
  from process_file_returns [OF o Cons.prems(1,2), of i] p have r: "r = Inr ()" by simp
  from process_file_keeps_table [OF Cons.prems(1,2), of env i f] p
  obtain t1 where d1: "db w1 = Database (Some t1)" and s1: "tbl_columns t1 = image_data_columns"
    by auto
  have "fst (process_files env (Suc i) files w1) = Inr ()"
    using Cons.IH [OF d1 s1] Cons.prems(3) by simp
  then show ?case by (simp add: then_do_def p r)
qed

text \<open>A failure of the model call is reported as an error naming the image; no row is written.\<close>

lemma failed_extraction_is_reported:
  assumes o: "image_open env (fst (file_read f)) = None"
    and d: "db w = Database (Some t)" and s: "tbl_columns t = image_data_columns"
    and n: "stored t (file_name f) = 0"
    and c: "chain_invoke env (length (requests w))
              (prompt (encode_image_from_bytes (file_bytes f))) = Inl e"
  shows "process_file env i f w =
     (Inr (),
      w\<lparr>statements := Suc (statements w),
        page := page w @ [Picture (i mod 4) (file_name f), Spinner (analysing (file_name f)),
                          Error (analysis_error (file_name f) e)],
        requests := requests w @ [prompt (encode_image_from_bytes (file_bytes f))]\<rparr>)"
proof -
  have o': "image_open env (drop (file_pos f) (file_bytes f)) = None"
    using o by (simp add: file_read_def)
  show ?thesis
    unfolding process_file_new [OF o' d s not_stored [OF s n]]
    using c by (simp add: Let_def encode_image_from_bytes_def)
qed

text \<open>An answer that is not a JSON object is reported in the same way.\<close>

lemma malformed_answer_is_reported:
  assumes o: "image_open env (fst (file_read f)) = None"
    and d: "db w = Database (Some t)" and s: "tbl_columns t = image_data_columns"
    and n: "stored t (file_name f) = 0"
    and c: "chain_invoke env (length (requests w))
              (prompt (encode_image_from_bytes (file_bytes f))) = Inr v"
    and v: "\<not> is_dict v"
  shows "process_file env i f w =
     (Inr (),
      w\<lparr>statements := Suc (statements w),
        page := page w @ [Picture (i mod 4) (file_name f), Spinner (analysing (file_name f)),
                          Error (analysis_error (file_name f) (no_get v))],
        requests := requests w @ [prompt (encode_image_from_bytes (file_bytes f))]\<rparr>)"
proof -
  have o': "image_open env (drop (file_pos f) (file_bytes f)) = None"
    using o by (simp add: file_read_def)
  show ?thesis
    unfolding process_file_new [OF o' d s not_stored [OF s n]]
    using c v by (simp add: Let_def encode_image_from_bytes_def)
qed

text \<open>
  C5. A batch of one new image whose answer gives \<open>title\<close> as \<^verbatim>\<open>null\<close>: the insert
  fails on the \<^verbatim>\<open>NOT NULL\<close> constraint of \<open>title\<close>, no row is written and the loop
  goes on, but the notice is the warning that the image already exists in the database,
  not an error.
\<close>

theorem null_title_is_reported_as_duplicate:
  "process_files (example_env (Inr (PDict [(''title'', PNone)]))) 0
     [example_file ''a.jpg'' ''image/jpeg'']
     (example_world (Database (Some (example_table [] 0)))) =
     (Inr (),
      \<lparr>db = Database (Some (example_table [] 0)), conns = [], statements = 2,
       page = [Picture 0 ''a.jpg'', Spinner (analysing ''a.jpg''),
               Warning (duplicate_warning ''a.jpg'')],
       requests = [prompt ''TWFu'']\<rparr>)"
proof -
  let ?kvs = "[(''title'', PNone)]"
  let ?env = "example_env (Inr (PDict ?kvs))"
  let ?f = "example_file ''a.jpg'' ''image/jpeg''"
  let ?t = "example_table [] 0"
  let ?w = "example_world (Database (Some ?t))"
  let ?w2 = "?w\<lparr>statements := Suc (statements ?w),
                page := page ?w @ [Picture (0 mod 4) (file_name ?f),
                                  Spinner (analysing (file_name ?f))],
                requests := requests ?w @ [prompt (b64encode (file_bytes ?f))]\<rparr>"
  have d: "db ?w = Database (Some ?t)" and s: "tbl_columns ?t = image_data_columns"
    by (simp_all add: example_world_facts example_table_facts)
  have d2: "db ?w2 = Database (Some ?t)" by (simp add: example_world_facts)
  have c: "chain_invoke ?env (length (requests ?w)) (prompt (b64encode (file_bytes ?f))) =
      Inr (PDict ?kvs)"
    by (simp add: example_env_facts)
  have o: "image_open ?env (drop (file_pos ?f) (file_bytes ?f)) = None"
    by (simp add: example_env_facts)
  have n: "filter (\<lambda>r. cell r 1 = SText (file_name ?f)) (tbl_rows ?t) = []"
    by (simp add: example_table_facts)
  have v: "title_to_insert ?kvs = PNone"
    "buildings_to_insert ?env ?kvs = PStr ''No buildings identified''"
    "description_to_insert ?env ?kvs = PStr ''No description''"
    by (simp_all add: title_to_insert_def buildings_to_insert_def description_to_insert_def
        dict_get_def flatten_def)
  have x: "bindable PNone" "bindable (PStr ''No buildings identified'')"
    "bindable (PStr ''No description'')" "stored_cell ?env PNone = SNull"
    by (simp_all add: bindable_def stored_cell_def bound_def apply_affinity_def)
  have b: "b64encode [77, 97, 110] = ''TWFu''" by (simp add: b64char_def)
  have "process_file ?env 0 ?f ?w =
     (Inr (),
      \<lparr>db = Database (Some (example_table [] 0)), conns = [], statements = 2,
       page = [Picture 0 ''a.jpg'', Spinner (analysing ''a.jpg''),
               Warning (duplicate_warning ''a.jpg'')],
       requests = [prompt ''TWFu'']\<rparr>)"
    unfolding process_file_dict [OF o d s n c] insert_cases [OF d2 s] v
    by (simp add: x empty_table_ids example_file_facts b64char_def)
       (simp add: example_world_def)
  then show ?thesis by (simp add: then_do_def ret_def)
qed

text \<open>
  The whole script: when the file is absent, or holds no table, or holds the table of the
  script, and every uploaded file can be displayed, a run ends without an exception.
\<close>

lemma app_runs:
  assumes "db w = NoFile \<or> db w = Database None \<or>
           (\<exists>t. db w = Database (Some t) \<and> tbl_columns t = image_data_columns)"
    and "\<forall>f\<in>set uploaded_files. image_open env (fst (file_read f)) = None"
  shows "fst (app env uploaded_files w) = Inr ()"
proof -
  have "\<exists>w1 t. setup_database w = (Inr (), w1) \<and> db w1 = Database (Some t) \<and>
           tbl_columns t = image_data_columns"
  proof (cases "db w = NoFile \<or> db w = Database None")
    case True
    show ?thesis unfolding setup_database_absent [OF True] by simp
  next
    case False
    with assms(1) obtain t where "db w = Database (Some t)"
      and "tbl_columns t = image_data_columns"
      by auto
    then show ?thesis by (simp add: setup_database_exists)
  qed
  then obtain w1 t where 1: "setup_database w = (Inr (), w1)" and d: "db w1 = Database (Some t)"
    and s: "tbl_columns t = image_data_columns"
    by blast
  obtain r w2 where 2: "(if uploaded_files \<noteq> [] then process_files env 0 uploaded_files
        else st_info ''Bitte laden Sie JPG-Bilder hoch, um sie hier zu analysieren und anzuzeigen.'')
         w1 = (r, w2)"
    by (cases "(if uploaded_files \<noteq> [] then process_files env 0 uploaded_files
        else st_info ''Bitte laden Sie JPG-Bilder hoch, um sie hier zu analysieren und anzuzeigen.'')
         w1")
  have r: "r = Inr ()"
  proof (cases "uploaded_files = []")
    case True
    with 2 show ?thesis by (simp add: st_info_def render_def)
  next
    case False
    with 2 batch_never_aborts [OF d s assms(2), of 0] show ?thesis by simp
  qed
  show ?thesis
    unfolding app_def
    using 1 2 r
    by (simp add: then_do_def st_download_button_def render_def del: process_files.simps)
qed

end
